theory Spec2Isabelle
  imports Complex_Main
begin

section \<open>Python values used by the pipeline\<close>

text \<open>
  The program is \<^verbatim>\<open>batch_ocr_pipeline.py\<close>. Python strings are modelled as \<^typ>\<open>string\<close>;
  a \<^typ>\<open>char\<close> stands for one code point below 256. Files hold strings, text and binary
  alike (encoding and decoding are the identity, line separators are POSIX).
  Exceptions are values of \<open>exn\<close>; only exceptions derived from Python's
  \<^verbatim>\<open>Exception\<close> are modelled (no \<^verbatim>\<open>KeyboardInterrupt\<close>).
\<close>

datatype exn =
    ZeroDivisionError
  | OverflowError
  | FileNotFoundError
  | FileExistsError
  | HTTPError int
  | KeyError
  | TypeError
  | AttributeError
  | ValueError
  | PdfReadError
  | PDFSyntaxError
  | JSONDecodeError
  | ConnectionError
  | OtherError string

text \<open>A parsed JSON document, as \<^verbatim>\<open>json.loads\<close> and \<^verbatim>\<open>Response.json()\<close> return it. A dict
  is an association list in insertion order with distinct keys. Numbers with a fraction
  are not modelled.\<close>

datatype json =
    JNull
  | JBool bool
  | JInt int
  | JStr string
  | JArr "json list"
  | JObj "(string \<times> json) list"

subsection \<open>\<^verbatim>\<open>str(n)\<close> for integers\<close>

definition digit_char :: "nat \<Rightarrow> char" where
  "digit_char d = ''0123456789'' ! d"

fun str_nat :: "nat \<Rightarrow> string" where
  "str_nat n = (if n < 10 then [digit_char n] else str_nat (n div 10) @ [digit_char (n mod 10)])"

declare str_nat.simps [simp del]

definition py_str_int :: "int \<Rightarrow> string" where
  "py_str_int i = (if i < 0 then CHR ''-'' # str_nat (nat (- i)) else str_nat (nat i))"

subsection \<open>\<^verbatim>\<open>str.strip()\<close> and \<^verbatim>\<open>str.join\<close>\<close>

text \<open>The characters for which \<^verbatim>\<open>str.isspace()\<close> holds, below code point 256:
  9..13, 28..32, 133 and 160.\<close>

definition py_isspace :: "char \<Rightarrow> bool" where
  "py_isspace c =
     (let n = (of_char c :: nat)
      in (9 \<le> n \<and> n \<le> 13) \<or> (28 \<le> n \<and> n \<le> 32) \<or> n = 133 \<or> n = 160)"

definition py_strip :: "string \<Rightarrow> string" where
  "py_strip s = rev (dropWhile py_isspace (rev (dropWhile py_isspace s)))"

fun py_join :: "string \<Rightarrow> string list \<Rightarrow> string" where
  "py_join sep [] = []"
| "py_join sep [x] = x"
| "py_join sep (x # y # ys) = x @ sep @ py_join sep (y # ys)"

text \<open>\<^verbatim>\<open>os.path.join(a, b)\<close> on POSIX, for two components.\<close>

definition os_path_join :: "string \<Rightarrow> string \<Rightarrow> string" where
  "os_path_join a b =
     (if b \<noteq> [] \<and> hd b = CHR ''/'' then b
      else if a = [] \<or> last a = CHR ''/'' then a @ b
      else a @ ''/'' @ b)"

subsection \<open>Operations on parsed JSON\<close>

text \<open>Truth value of a Python object (\<^verbatim>\<open>if x\<close>, \<^verbatim>\<open>x or y\<close>).\<close>

fun py_truthy :: "json \<Rightarrow> bool" where
  "py_truthy JNull = False"
| "py_truthy (JBool b) = b"
| "py_truthy (JInt i) = (i \<noteq> 0)"
| "py_truthy (JStr s) = (s \<noteq> [])"
| "py_truthy (JArr xs) = (xs \<noteq> [])"
| "py_truthy (JObj kvs) = (kvs \<noteq> [])"

definition py_or :: "json \<Rightarrow> json \<Rightarrow> json" where
  "py_or a b = (if py_truthy a then a else b)"

text \<open>\<^verbatim>\<open>d[k]\<close> with a string key: \<^verbatim>\<open>KeyError\<close> on a dict without the key,
  \<^verbatim>\<open>TypeError\<close> on anything that is not a dict.\<close>

fun py_getitem :: "json \<Rightarrow> string \<Rightarrow> exn + json" where
  "py_getitem (JObj kvs) k = (case map_of kvs k of None \<Rightarrow> Inl KeyError | Some v \<Rightarrow> Inr v)"
| "py_getitem _ k = Inl TypeError"

text \<open>\<^verbatim>\<open>d.get(k, default)\<close>: only a dict has the method.\<close>

fun py_get :: "json \<Rightarrow> string \<Rightarrow> json \<Rightarrow> exn + json" where
  "py_get (JObj kvs) k d = Inr (case map_of kvs k of None \<Rightarrow> d | Some v \<Rightarrow> v)"
| "py_get _ k d = Inl AttributeError"

text \<open>\<^verbatim>\<open>x[0]\<close>.\<close>

fun py_index0 :: "json \<Rightarrow> exn + json" where
  "py_index0 (JArr []) = Inl (OtherError ''IndexError'')"
| "py_index0 (JArr (x # xs)) = Inr x"
| "py_index0 (JStr []) = Inl (OtherError ''IndexError'')"
| "py_index0 (JStr (c # cs)) = Inr (JStr [c])"
| "py_index0 (JObj kvs) = Inl KeyError"
| "py_index0 _ = Inl TypeError"

text \<open>\<^verbatim>\<open>x.strip()\<close>: only a string has the method.\<close>

fun py_strip_method :: "json \<Rightarrow> exn + string" where
  "py_strip_method (JStr s) = Inr (py_strip s)"
| "py_strip_method _ = Inl AttributeError"

section \<open>The world: files, console, network, clock\<close>

datatype http_method = GET | POST

text \<open>A request as \<^verbatim>\<open>requests.get\<close> and \<^verbatim>\<open>requests.post\<close> send it: \<open>req_files\<close> are the
  multipart file parts (field name and bytes), \<open>req_data\<close> the form fields, \<open>req_body\<close> a
  raw body.\<close>

record request =
  req_method :: http_method
  req_url :: string
  req_headers :: "(string \<times> string) list"
  req_files :: "(string \<times> string) list"
  req_data :: "(string \<times> string) list"
  req_body :: "string option"

text \<open>A response: its status code, its bytes, and what \<^verbatim>\<open>.json()\<close> gives on it.\<close>

record response =
  status_code :: int
  content :: string
  resp_json :: "exn + json"

datatype event = Http request | Sleep int | Print string

text \<open>The file system is flat: a path is a name, which is the name of a regular file
  (\<open>files\<close>), of a directory (\<open>dirs\<close>), or free.\<close>

record world =
  files :: "string \<Rightarrow> string option"
  dirs :: "string set"
  trace :: "event list"

text \<open>
  What the program does not define itself is a parameter: the PDF library
  (\<open>pdf_reader\<close> gives the pages of a file's bytes or raises, \<open>pdf_writer\<close> gives the bytes of a
  document made of the given pages), the text extractor (\<open>pdfminer\<close>, with \<^verbatim>\<open>maxpages\<close>), the
  JSON library, \<^verbatim>\<open>str()\<close> on a parsed JSON value, the environment variable
  \<^verbatim>\<open>MISTRAL_API_KEY\<close>, and the remote service, which answers a request knowing everything that
  happened before (or fails to answer: the exception \<^verbatim>\<open>requests\<close> raises).
\<close>

record 'pg env =
  pdf_reader :: "string \<Rightarrow> exn + 'pg list"
  pdf_writer :: "'pg list \<Rightarrow> string"
  pdfminer :: "string \<Rightarrow> nat \<Rightarrow> exn + string"
  json_dumps :: "json \<Rightarrow> string"
  json_loads :: "string \<Rightarrow> exn + json"
  py_str :: "json \<Rightarrow> string"
  api_key :: "string option"
  server :: "event list \<Rightarrow> request \<Rightarrow> exn + response"

definition py_print :: "string \<Rightarrow> world \<Rightarrow> world" where
  "py_print s w = w\<lparr>trace := trace w @ [Print s]\<rparr>"

definition write_file :: "string \<Rightarrow> string \<Rightarrow> world \<Rightarrow> world" where
  "write_file path s w = w\<lparr>files := (files w)(path \<mapsto> s)\<rparr>"

definition read_file :: "world \<Rightarrow> string \<Rightarrow> exn + string" where
  "read_file w path = (case files w path of None \<Rightarrow> Inl FileNotFoundError | Some s \<Rightarrow> Inr s)"

text \<open>\<^verbatim>\<open>os.makedirs(path, exist_ok=True)\<close>: the empty path raises \<^verbatim>\<open>FileNotFoundError\<close>, the
  name of a regular file raises \<^verbatim>\<open>FileExistsError\<close>; otherwise the directory exists
  afterwards.\<close>

definition os_makedirs :: "string \<Rightarrow> world \<Rightarrow> (exn + unit) \<times> world" where
  "os_makedirs path w =
     (if path = [] then (Inl FileNotFoundError, w)
      else if files w path \<noteq> None then (Inl FileExistsError, w)
      else (Inr (), w\<lparr>dirs := insert path (dirs w)\<rparr>))"

text \<open>Sequencing with exceptions: the first exception ends the computation, and what was
  written before it stays written.\<close>

definition and_then ::
  "(exn + 'a) \<times> world \<Rightarrow> ('a \<Rightarrow> world \<Rightarrow> (exn + 'b) \<times> world) \<Rightarrow> (exn + 'b) \<times> world" where
  "and_then r f = (case r of (Inl e, w) \<Rightarrow> (Inl e, w) | (Inr x, w) \<Rightarrow> f x w)"

section \<open>Splitting the PDF\<close>

text \<open>
  \<^verbatim>\<open>total_pages / chunk_size\<close> divides two integers into a float: the quotient, correctly
  rounded to the nearest IEEE 754 double, ties to even. A finite double is a pair \<open>(m, p)\<close>
  that stands for \<open>m * 2^p\<close>, with \<open>\<bar>m\<bar> \<le> 2^53\<close> and \<open>- 1074 \<le> p\<close>.
\<close>

text \<open>\<^verbatim>\<open>n.bit_length()\<close>.\<close>

fun bit_length :: "nat \<Rightarrow> nat" where
  "bit_length n = (if n = 0 then 0 else Suc (bit_length (n div 2)))"

declare bit_length.simps [simp del]

text \<open>The exponent \<open>e\<close> of the quotient of two positive integers: \<open>2^e \<le> n / c < 2^(e + 1)\<close>.\<close>

definition quot_exponent :: "nat \<Rightarrow> nat \<Rightarrow> int" where
  "quot_exponent n c =
     (let d = int (bit_length n) - int (bit_length c)
      in if c * 2 ^ nat d \<le> n * 2 ^ nat (- d) then d else d - 1)"

text \<open>The integer nearest to \<open>N / D\<close>, the even one of two that are equally near.\<close>

definition round_half_even :: "nat \<Rightarrow> nat \<Rightarrow> nat" where
  "round_half_even N D =
     (let q = N div D; r = N mod D
      in if 2 * r < D then q else if D < 2 * r then q + 1 else if even q then q else q + 1)"

text \<open>
  \<^verbatim>\<open>a / b\<close> on integers. The significand has 53 bits, fewer below \<open>2^(- 1022)\<close> (the last
  place is never below \<open>2^(- 1074)\<close>, so a small quotient rounds to zero); a quotient that
  rounds to \<open>2^1024\<close> or more raises \<^verbatim>\<open>OverflowError\<close>.
\<close>

definition py_truediv :: "int \<Rightarrow> int \<Rightarrow> exn + int \<times> int" where
  "py_truediv a b =
     (if b = 0 then Inl ZeroDivisionError
      else if a = 0 then Inr (0, 0)
      else
        (let n = nat \<bar>a\<bar>; c = nat \<bar>b\<bar>;
             e = quot_exponent n c;
             p = max (e - 52) (- 1074);
             m = int (round_half_even (n * 2 ^ nat (- p)) (c * 2 ^ nat p))
         in if 1023 < e \<or> (e = 1023 \<and> m = 2 ^ 53) then Inl OverflowError
            else Inr (sgn a * sgn b * m, p)))"

text \<open>\<^verbatim>\<open>math.ceil(x)\<close> of a finite float: an integer.\<close>

definition math_ceil :: "int \<times> int \<Rightarrow> int" where
  "math_ceil x =
     (case x of (m, p) \<Rightarrow> if 0 \<le> p then m * 2 ^ nat p else - ((- m) div 2 ^ nat (- p)))"

text \<open>\<^verbatim>\<open>reader.pages[j]\<close>, with Python's negative indices.\<close>

definition page_at :: "'pg list \<Rightarrow> int \<Rightarrow> exn + 'pg" where
  "page_at pages j =
     (let n = int (length pages); k = (if j < 0 then n + j else j)
      in if 0 \<le> k \<and> k < n then Inr (pages ! nat k) else Inl (OtherError ''IndexError''))"

text \<open>The inner loop: \<^verbatim>\<open>for j in range(start, end): writer.add_page(reader.pages[j])\<close>.\<close>

fun add_pages :: "'pg list \<Rightarrow> int list \<Rightarrow> 'pg list \<Rightarrow> exn + 'pg list" where
  "add_pages pages [] acc = Inr acc"
| "add_pages pages (j # js) acc =
     (case page_at pages j of Inl e \<Rightarrow> Inl e | Inr p \<Rightarrow> add_pages pages js (acc @ [p]))"

definition chunk_path :: "string \<Rightarrow> nat \<Rightarrow> string" where
  "chunk_path output_dir i = os_path_join output_dir (''chunk_'' @ str_nat (i + 1) @ ''.pdf'')"

text \<open>The outer loop over \<^verbatim>\<open>range(chunks)\<close>, carrying \<^verbatim>\<open>file_paths\<close> and the world.\<close>

fun split_loop ::
  "'pg env \<Rightarrow> 'pg list \<Rightarrow> int \<Rightarrow> string \<Rightarrow> nat list \<Rightarrow> string list \<Rightarrow> world
     \<Rightarrow> (exn + string list) \<times> world" where
  "split_loop env pages chunk_size output_dir [] file_paths w = (Inr file_paths, w)"
| "split_loop env pages chunk_size output_dir (i # is) file_paths w =
     (let start = int i * chunk_size;
          end = min (start + chunk_size) (int (length pages))
      in case add_pages pages [start..end - 1] [] of
           Inl e \<Rightarrow> (Inl e, w)
         | Inr written \<Rightarrow>
             (let path = chunk_path output_dir i;
                  w' = write_file path (pdf_writer env written) w
              in split_loop env pages chunk_size output_dir is (file_paths @ [path]) w'))"

definition split_pdf ::
  "'pg env \<Rightarrow> string \<Rightarrow> int \<Rightarrow> string \<Rightarrow> world \<Rightarrow> (exn + string list) \<times> world" where
  "split_pdf env input_pdf chunk_size output_dir w =
     and_then (os_makedirs output_dir w)
       (\<lambda>u w0.
          case read_file w0 input_pdf of
            Inl e \<Rightarrow> (Inl e, w0)
          | Inr bytes \<Rightarrow>
              (case pdf_reader env bytes of
                 Inl e \<Rightarrow> (Inl e, w0)
               | Inr pages \<Rightarrow>
                   (let total_pages = int (length pages)
                    in case py_truediv total_pages chunk_size of
                         Inl e \<Rightarrow> (Inl e, w0)
                       | Inr q \<Rightarrow>
                           (let chunks = math_ceil q
                            in and_then
                                 (split_loop env pages chunk_size output_dir [0..<nat chunks] [] w0)
                                 (\<lambda>file_paths w'.
                                    (Inr file_paths,
                                     py_print (''Split into '' @ py_str_int (int (length file_paths))
                                               @ '' chunks of up to '' @ py_str_int chunk_size
                                               @ '' pages.'') w'))))))"

section \<open>Classifying a chunk\<close>

text \<open>\<^verbatim>\<open>extract_text(path, maxpages=n)\<close> of pdfminer opens the file and hands it to the
  extractor; \<^verbatim>\<open>maxpages=0\<close>, the default, means every page.\<close>

definition extract_text :: "'pg env \<Rightarrow> world \<Rightarrow> string \<Rightarrow> nat \<Rightarrow> exn + string" where
  "extract_text env w path maxpages =
     (case read_file w path of Inl e \<Rightarrow> Inl e | Inr bytes \<Rightarrow> pdfminer env bytes maxpages)"

definition is_text_page :: "'pg env \<Rightarrow> world \<Rightarrow> string \<Rightarrow> bool" where
  "is_text_page env w pdf_path =
     (case extract_text env w pdf_path 1 of
        Inl e \<Rightarrow> False
      | Inr text \<Rightarrow> py_strip text \<noteq> [])"

section \<open>The remote service\<close>

definition API_URL :: string where
  "API_URL = ''https://api.mistral.ai/v1''"

definition HEADERS :: "'pg env \<Rightarrow> (string \<times> string) list" where
  "HEADERS env =
     [(''Authorization'', ''Bearer '' @ (case api_key env of None \<Rightarrow> ''None'' | Some k \<Rightarrow> k))]"

text \<open>One request: it is recorded, and the service's answer (or the exception of the
  transport) comes back.\<close>

definition http_send :: "'pg env \<Rightarrow> request \<Rightarrow> world \<Rightarrow> (exn + response) \<times> world" where
  "http_send env req w = (server env (trace w) req, w\<lparr>trace := trace w @ [Http req]\<rparr>)"

definition raise_for_status :: "response \<Rightarrow> exn + unit" where
  "raise_for_status r =
     (if 400 \<le> status_code r \<and> status_code r < 600 then Inl (HTTPError (status_code r))
      else Inr ())"

definition upload_request :: "'pg env \<Rightarrow> string \<Rightarrow> request" where
  "upload_request env f =
     \<lparr>req_method = POST, req_url = API_URL @ ''/files'', req_headers = HEADERS env,
      req_files = [(''file'', f)], req_data = [(''purpose'', ''batch'')], req_body = None\<rparr>"

definition upload_file :: "'pg env \<Rightarrow> string \<Rightarrow> world \<Rightarrow> (exn + json) \<times> world" where
  "upload_file env filepath w =
     (case read_file w filepath of
        Inl e \<Rightarrow> (Inl e, w)
      | Inr f \<Rightarrow>
          and_then (http_send env (upload_request env f) w)
            (\<lambda>response w'.
               case raise_for_status response of
                 Inl e \<Rightarrow> (Inl e, w')
               | Inr _ \<Rightarrow>
                   (case resp_json response of
                      Inl e \<Rightarrow> (Inl e, w')
                    | Inr j \<Rightarrow> (py_getitem j ''id'', w'))))"

subsection \<open>The manifest\<close>

definition ndjson_line :: "nat \<Rightarrow> json \<Rightarrow> json" where
  "ndjson_line i fid =
     JObj [(''custom_id'', JStr (''chunk_'' @ str_nat (i + 1))),
           (''body'', JObj [(''model'', JStr ''mistral-ocr''), (''input'', fid)])]"

text \<open>The loop over \<^verbatim>\<open>enumerate(scanned_file_ids)\<close>; \<open>buf\<close> is what has been written to the
  open file so far.\<close>

fun ndjson_loop :: "'pg env \<Rightarrow> nat \<Rightarrow> json list \<Rightarrow> string \<Rightarrow> string" where
  "ndjson_loop env i [] buf = buf"
| "ndjson_loop env i (fid # fids) buf =
     ndjson_loop env (i + 1) fids (buf @ json_dumps env (ndjson_line i fid) @ [CHR 0x0A])"

definition create_ndjson ::
  "'pg env \<Rightarrow> json list \<Rightarrow> string \<Rightarrow> world \<Rightarrow> (exn + string) \<times> world" where
  "create_ndjson env scanned_file_ids output_path w =
     (let w1 = write_file output_path (ndjson_loop env 0 scanned_file_ids []) w;
          w2 = py_print (''NDJSON file created with ''
                         @ py_str_int (int (length scanned_file_ids)) @ '' OCR tasks.'') w1
      in (Inr output_path, w2))"

definition upload_batch_file :: "'pg env \<Rightarrow> string \<Rightarrow> world \<Rightarrow> (exn + json) \<times> world" where
  "upload_batch_file env ndjson_path w =
     (case read_file w ndjson_path of
        Inl e \<Rightarrow> (Inl e, w)
      | Inr f \<Rightarrow>
          and_then (http_send env (upload_request env f) w)
            (\<lambda>response w'.
               case raise_for_status response of
                 Inl e \<Rightarrow> (Inl e, w')
               | Inr _ \<Rightarrow>
                   (case resp_json response of
                      Inl e \<Rightarrow> (Inl e, w')
                    | Inr j \<Rightarrow> (py_getitem j ''id'', w'))))"

subsection \<open>The batch job\<close>

definition job_request :: "'pg env \<Rightarrow> json \<Rightarrow> request" where
  "job_request env batch_file_id =
     \<lparr>req_method = POST, req_url = API_URL @ ''/batch/jobs'',
      req_headers = HEADERS env @ [(''Content-Type'', ''application/json'')],
      req_files = [], req_data = [],
      req_body = Some (json_dumps env
        (JObj [(''input_files'', JArr [batch_file_id]),
               (''endpoint'', JStr ''/v1/ocr''),
               (''model'', JStr ''mistral-ocr'')]))\<rparr>"

definition create_batch_job :: "'pg env \<Rightarrow> json \<Rightarrow> world \<Rightarrow> (exn + json) \<times> world" where
  "create_batch_job env batch_file_id w =
     and_then (http_send env (job_request env batch_file_id) w)
       (\<lambda>response w'.
          case raise_for_status response of
            Inl e \<Rightarrow> (Inl e, w')
          | Inr _ \<Rightarrow>
              (case resp_json response of
                 Inl e \<Rightarrow> (Inl e, w')
               | Inr job \<Rightarrow>
                   (case py_getitem job ''id'' of
                      Inl e \<Rightarrow> (Inl e, w')
                    | Inr job_id \<Rightarrow>
                        (Inr job_id,
                         py_print (''Created OCR batch job: '' @ py_str env job_id) w'))))"

subsection \<open>Polling\<close>

definition get_request :: "'pg env \<Rightarrow> string \<Rightarrow> request" where
  "get_request env url =
     \<lparr>req_method = GET, req_url = url, req_headers = HEADERS env,
      req_files = [], req_data = [], req_body = None\<rparr>"

definition poll_request :: "'pg env \<Rightarrow> json \<Rightarrow> request" where
  "poll_request env job_id = get_request env (API_URL @ ''/batch/jobs/'' @ py_str env job_id)"

definition terminal_statuses :: "json list" where
  "terminal_statuses = [JStr ''completed'', JStr ''failed'', JStr ''cancelled'']"

text \<open>\<^verbatim>\<open>time.sleep(interval)\<close>: a negative interval raises \<^verbatim>\<open>ValueError\<close>.\<close>

definition py_sleep :: "int \<Rightarrow> world \<Rightarrow> (exn + unit) \<times> world" where
  "py_sleep interval w =
     (if interval < 0 then (Inl ValueError, w)
      else (Inr (), w\<lparr>trace := trace w @ [Sleep interval]\<rparr>))"

text \<open>The console line of one poll, with the bytes the source file holds before
  "Status".\<close>

definition status_line :: "'pg env \<Rightarrow> json \<Rightarrow> string" where
  "status_line env status =
     ''   '' @ [CHR 0xC3, CHR 0xA2, CHR 0xE2, CHR 0x80, CHR 0xA0, CHR 0xE2, CHR 0x80, CHR 0x99]
     @ '' Status: '' @ py_str env status"

text \<open>The \<^verbatim>\<open>while True\<close> loop. It has no bound: \<open>None\<close> is the run that never returns.\<close>

partial_function (option) poll_loop ::
  "'pg env \<Rightarrow> json \<Rightarrow> int \<Rightarrow> world \<Rightarrow> ((exn + json) \<times> world) option" where
  "poll_loop env job_id interval w =
     (case http_send env (poll_request env job_id) w of
        (Inl e, w1) \<Rightarrow> Some (Inl e, w1)
      | (Inr resp, w1) \<Rightarrow>
          (case resp_json resp of
             Inl e \<Rightarrow> Some (Inl e, w1)
           | Inr data \<Rightarrow>
               (case py_getitem data ''status'' of
                  Inl e \<Rightarrow> Some (Inl e, w1)
                | Inr status \<Rightarrow>
                    (if status \<in> set terminal_statuses
                     then Some (Inr data, py_print (status_line env status) w1)
                     else
                       (case py_sleep interval (py_print (status_line env status) w1) of
                          (Inl e, w3) \<Rightarrow> Some (Inl e, w3)
                        | (Inr _, w3) \<Rightarrow> poll_loop env job_id interval w3)))))"

definition wait_for_job ::
  "'pg env \<Rightarrow> json \<Rightarrow> int \<Rightarrow> world \<Rightarrow> ((exn + json) \<times> world) option" where
  "wait_for_job env job_id interval w =
     poll_loop env job_id interval (py_print ''Waiting for OCR batch job to complete...'' w)"

section \<open>Downloading and parsing the results\<close>

text \<open>Reading a file opened in text mode: \<^verbatim>\<open>\r\n\<close> and \<^verbatim>\<open>\r\<close> become \<^verbatim>\<open>\n\<close>, and iterating
  over the file gives its lines, each with its terminator.\<close>

fun universal_newlines :: "string \<Rightarrow> string" where
  "universal_newlines [] = []"
| "universal_newlines [c] = (if c = CHR 0x0D then [CHR 0x0A] else [c])"
| "universal_newlines (c # d # cs) =
     (if c = CHR 0x0D \<and> d = CHR 0x0A then CHR 0x0A # universal_newlines cs
      else if c = CHR 0x0D then CHR 0x0A # universal_newlines (d # cs)
      else c # universal_newlines (d # cs))"

fun lines_from :: "string \<Rightarrow> string \<Rightarrow> string list" where
  "lines_from [] cur = (if cur = [] then [] else [cur])"
| "lines_from (c # cs) cur =
     (if c = CHR 0x0A then (cur @ [c]) # lines_from cs [] else lines_from cs (cur @ [c]))"

definition file_lines :: "string \<Rightarrow> string list" where
  "file_lines s = lines_from (universal_newlines s) []"

text \<open>The text of one record:
  \<^verbatim>\<open>result.get("response", {}).get("output_text") or result.get("response", {}).get("text") or ""\<close>,
  then \<^verbatim>\<open>.strip()\<close>.\<close>

definition response_field :: "json \<Rightarrow> string \<Rightarrow> exn + json" where
  "response_field result k =
     (case py_get result ''response'' (JObj []) of
        Inl e \<Rightarrow> Inl e
      | Inr r \<Rightarrow> py_get r k JNull)"

definition result_text :: "json \<Rightarrow> exn + string" where
  "result_text result =
     (case response_field result ''output_text'' of
        Inl e \<Rightarrow> Inl e
      | Inr a \<Rightarrow>
          if py_truthy a then py_strip_method a
          else
            (case response_field result ''text'' of
               Inl e \<Rightarrow> Inl e
             | Inr b \<Rightarrow> py_strip_method (py_or b (JStr []))))"

fun parse_lines :: "'pg env \<Rightarrow> string list \<Rightarrow> string list \<Rightarrow> exn + string list" where
  "parse_lines env [] texts = Inr texts"
| "parse_lines env (line # lines) texts =
     (case json_loads env line of
        Inl e \<Rightarrow> Inl e
      | Inr result \<Rightarrow>
          (case result_text result of
             Inl e \<Rightarrow> Inl e
           | Inr output_text \<Rightarrow> parse_lines env lines (texts @ [output_text])))"

definition download_request :: "'pg env \<Rightarrow> json \<Rightarrow> request" where
  "download_request env output_file_id =
     get_request env (API_URL @ ''/files/'' @ py_str env output_file_id @ ''/content'')"

definition download_results ::
  "'pg env \<Rightarrow> json \<Rightarrow> string \<Rightarrow> world \<Rightarrow> (exn + string list) \<times> world" where
  "download_results env output_file_id save_path w =
     and_then (http_send env (download_request env output_file_id) w)
       (\<lambda>r w'.
          case raise_for_status r of
            Inl e \<Rightarrow> (Inl e, w')
          | Inr _ \<Rightarrow>
              (let w1 = write_file save_path (content r) w';
                   w2 = py_print (''OCR results downloaded to: '' @ save_path) w1
               in case read_file w2 save_path of
                    Inl e \<Rightarrow> (Inl e, w2)
                  | Inr s \<Rightarrow> (parse_lines env (file_lines s) [], w2)))"

section \<open>The main workflow\<close>

text \<open>Lines 171 to 175: the classification loop (the progress bar of \<^verbatim>\<open>tqdm\<close> is left
  out).\<close>

fun classify ::
  "'pg env \<Rightarrow> world \<Rightarrow> string list \<Rightarrow> string list \<Rightarrow> string list \<Rightarrow> string list \<times> string list" where
  "classify env w [] text_pages scanned_pages = (text_pages, scanned_pages)"
| "classify env w (path # paths) text_pages scanned_pages =
     (if is_text_page env w path
      then classify env w paths (text_pages @ [path]) scanned_pages
      else classify env w paths text_pages (scanned_pages @ [path]))"

text \<open>Lines 181 to 184: direct extraction from the text chunks.\<close>

fun extract_loop :: "'pg env \<Rightarrow> world \<Rightarrow> string list \<Rightarrow> string list \<Rightarrow> exn + string list" where
  "extract_loop env w [] merged_text = Inr merged_text"
| "extract_loop env w (path # paths) merged_text =
     (case extract_text env w path 0 of
        Inl e \<Rightarrow> Inl e
      | Inr text \<Rightarrow> extract_loop env w paths (merged_text @ [py_strip text]))"

text \<open>Line 189: \<^verbatim>\<open>[upload_file(p) for p in tqdm(scanned_pages)]\<close>.\<close>

fun upload_all ::
  "'pg env \<Rightarrow> string list \<Rightarrow> json list \<Rightarrow> world \<Rightarrow> (exn + json list) \<times> world" where
  "upload_all env [] ids w = (Inr ids, w)"
| "upload_all env (p # ps) ids w =
     and_then (upload_file env p w) (\<lambda>fid w'. upload_all env ps (ids @ [fid]) w')"

text \<open>Lines 162 to 184: split, classify, extract. The result is \<^verbatim>\<open>merged_text\<close> and
  \<^verbatim>\<open>scanned_pages\<close>.\<close>

definition main_start :: "'pg env \<Rightarrow> world \<Rightarrow> (exn + string list \<times> string list) \<times> world" where
  "main_start env w =
     (let input_pdf = ''Chatbot Proposal V1.1.pdf'';
          w0 = py_print (''Starting smart OCR for '' @ input_pdf) w
      in and_then (split_pdf env input_pdf 5 ''split_chunks'' w0)
           (\<lambda>chunk_files w1.
              let w2 = py_print ([CHR 0x0A] @ ''Detecting text-only vs scanned chunks...'') w1;
                  (text_pages, scanned_pages) = classify env w2 chunk_files [] [];
                  w3 = py_print (py_str_int (int (length text_pages))
                                 @ '' chunks are text-only (no OCR needed).'') w2;
                  w4 = py_print (py_str_int (int (length scanned_pages))
                                 @ '' chunks will be OCR processed.'' @ [CHR 0x0A]) w3
              in case extract_loop env w4 text_pages [] of
                   Inl e \<Rightarrow> (Inl e, w4)
                 | Inr merged_text \<Rightarrow> (Inr (merged_text, scanned_pages), w4)))"

text \<open>Lines 188 to 192: upload, manifest, job creation. The result is the job id.\<close>

definition ocr_submit :: "'pg env \<Rightarrow> string list \<Rightarrow> world \<Rightarrow> (exn + json) \<times> world" where
  "ocr_submit env scanned_pages w =
     and_then (upload_all env scanned_pages [] (py_print ''Uploading scanned chunks to Mistral...'' w))
       (\<lambda>scanned_ids w1.
          and_then (create_ndjson env scanned_ids ''ocr_batch.ndjson'' w1)
            (\<lambda>ndjson_path w2.
               and_then (upload_batch_file env ndjson_path w2)
                 (\<lambda>batch_file_id w3. create_batch_job env batch_file_id w3)))"

text \<open>Lines 195 to 200: what \<^verbatim>\<open>main\<close> does with the job object that polling returned.\<close>

definition ocr_collect ::
  "'pg env \<Rightarrow> string list \<Rightarrow> json \<Rightarrow> world \<Rightarrow> (exn + string list) \<times> world" where
  "ocr_collect env merged_text job_info w =
     (case py_get job_info ''output_files'' JNull of
        Inl e \<Rightarrow> (Inl e, w)
      | Inr fs \<Rightarrow>
          if py_truthy fs then
            (case py_getitem job_info ''output_files'' of
               Inl e \<Rightarrow> (Inl e, w)
             | Inr fs' \<Rightarrow>
                 (case py_index0 fs' of
                    Inl e \<Rightarrow> (Inl e, w)
                  | Inr output_file_id \<Rightarrow>
                      and_then (download_results env output_file_id ''ocr_results.ndjson'' w)
                        (\<lambda>ocr_texts w'. (Inr (merged_text @ ocr_texts), w'))))
          else (Inr merged_text, py_print ''No OCR output files found!'' w))"

text \<open>Lines 203 to 208: merge and write.\<close>

definition main_finish :: "string list \<Rightarrow> world \<Rightarrow> (exn + unit) \<times> world" where
  "main_finish merged_text w =
     (let final_output = py_join [CHR 0x0A, CHR 0x0A] merged_text;
          w1 = write_file ''final_smart_ocr_output.txt'' final_output w;
          w2 = py_print ([CHR 0x0A] @ ''Smart OCR completed successfully!'') w1;
          w3 = py_print ''Final merged text saved to: final_smart_ocr_output.txt'' w2
      in (Inr (), w3))"

definition main :: "'pg env \<Rightarrow> world \<Rightarrow> ((exn + unit) \<times> world) option" where
  "main env w =
     (case main_start env w of
        (Inl e, w1) \<Rightarrow> Some (Inl e, w1)
      | (Inr (merged_text, scanned_pages), w1) \<Rightarrow>
          if scanned_pages \<noteq> [] then
            (case ocr_submit env scanned_pages w1 of
               (Inl e, w2) \<Rightarrow> Some (Inl e, w2)
             | (Inr job_id, w2) \<Rightarrow>
                 (case wait_for_job env job_id 15 w2 of
                    None \<Rightarrow> None
                  | Some (Inl e, w3) \<Rightarrow> Some (Inl e, w3)
                  | Some (Inr job_info, w3) \<Rightarrow>
                      Some (and_then (ocr_collect env merged_text job_info w3) main_finish)))
          else Some (main_finish merged_text w1))"

text \<open>The requests in a trace, in the order they were sent.\<close>

fun http_requests :: "event list \<Rightarrow> request list" where
  "http_requests [] = []"
| "http_requests (Http r # es) = r # http_requests es"
| "http_requests (e # es) = http_requests es"

section \<open>Auxiliary notions for the proofs\<close>

text \<open>The value of a decimal numeral, to show that \<open>str_nat\<close> is injective.\<close>

definition digit_val :: "char \<Rightarrow> nat" where
  "digit_val c = of_char c - 48"

definition digits_val :: "string \<Rightarrow> nat" where
  "digits_val s = foldl (\<lambda>a c. 10 * a + digit_val c) 0 s"

text \<open>The exact ceiling of a quotient of integers.\<close>

definition ceil_div :: "int \<Rightarrow> int \<Rightarrow> int" where
  "ceil_div n c = - ((- n) div c)"


text \<open>The pages of chunk \<open>i\<close> when every chunk has \<open>c\<close> pages.\<close>

definition chunk_of :: "'a list \<Rightarrow> nat \<Rightarrow> nat \<Rightarrow> 'a list" where
  "chunk_of pages c i = take c (drop (i * c) pages)"

definition write_chunk :: "'pg env \<Rightarrow> 'pg list \<Rightarrow> nat \<Rightarrow> string \<Rightarrow> nat \<Rightarrow> world \<Rightarrow> world" where
  "write_chunk env pages c output_dir i w =
     write_file (chunk_path output_dir i) (pdf_writer env (chunk_of pages c i)) w"

subsection \<open>A small instance of the environment\<close>

text \<open>
  An instance on which the model runs: a page is one character (its text), the bytes of a
  document are \<^verbatim>\<open>%PDF\<close> followed by its pages, and the extractor returns the pages it was
  asked for. The service and the JSON parser are given by the caller; \<open>scripted\<close> is a
  service that answers the \<open>n\<close>-th request with the \<open>n\<close>-th entry of a list.
\<close>

fun str_atom :: "json \<Rightarrow> string" where
  "str_atom (JStr s) = s"
| "str_atom (JInt i) = py_str_int i"
| "str_atom _ = ''?''"

text \<open>A serializer in the format of \<^verbatim>\<open>json.dumps\<close>, without escapes in strings.\<close>

definition quoted :: "string \<Rightarrow> string" where
  "quoted s = [CHR 0x22] @ s @ [CHR 0x22]"

fun toy_dumps :: "json \<Rightarrow> string" where
  "toy_dumps JNull = ''null''"
| "toy_dumps (JBool b) = (if b then ''true'' else ''false'')"
| "toy_dumps (JInt i) = py_str_int i"
| "toy_dumps (JStr s) = quoted s"
| "toy_dumps (JArr xs) = ''['' @ py_join '', '' (map toy_dumps xs) @ '']''"
| "toy_dumps (JObj kvs) =
     ''{'' @ py_join '', '' (map (\<lambda>(k, v). quoted k @ '': '' @ toy_dumps v) kvs) @ ''}''"

definition toy_env ::
  "(event list \<Rightarrow> request \<Rightarrow> exn + response) \<Rightarrow> (string \<Rightarrow> exn + json) \<Rightarrow> char env" where
  "toy_env srv loads =
     \<lparr>pdf_reader = (\<lambda>bytes. if take 4 bytes = ''%PDF'' then Inr (drop 4 bytes) else Inl PdfReadError),
      pdf_writer = (\<lambda>pages. ''%PDF'' @ pages),
      pdfminer = (\<lambda>bytes maxpages.
         if take 4 bytes = ''%PDF''
         then Inr (if maxpages = 0 then drop 4 bytes else take maxpages (drop 4 bytes))
         else Inl PDFSyntaxError),
      json_dumps = toy_dumps,
      json_loads = loads,
      py_str = str_atom,
      api_key = Some ''k'',
      server = srv\<rparr>"

definition scripted :: "(exn + response) list \<Rightarrow> event list \<Rightarrow> request \<Rightarrow> exn + response" where
  "scripted rs tr req =
     (if length (http_requests tr) < length rs then rs ! length (http_requests tr)
      else Inl ConnectionError)"

definition no_loads :: "string \<Rightarrow> exn + json" where
  "no_loads s = Inl JSONDecodeError"

definition toy_world :: "string \<Rightarrow> world" where
  "toy_world doc = \<lparr>files = [''Chatbot Proposal V1.1.pdf'' \<mapsto> doc], dirs = {}, trace = []\<rparr>"

definition json_response :: "int \<Rightarrow> json \<Rightarrow> response" where
  "json_response code j = \<lparr>status_code = code, content = [], resp_json = Inr j\<rparr>"

text \<open>A world with three chunk files: one with text, two with whitespace only. The last
  two are what the classifier calls scanned.\<close>

definition three_chunks :: world where
  "three_chunks =
     \<lparr>files = [''split_chunks/chunk_1.pdf'' \<mapsto> ''%PDFx'',
               ''split_chunks/chunk_2.pdf'' \<mapsto> ''%PDF '',
               ''split_chunks/chunk_3.pdf'' \<mapsto> ''%PDF  ''],
      dirs = {''split_chunks''},
      trace = []\<rparr>"

subsection \<open>The text of a result record, in the words of the specification\<close>

text \<open>The string in field \<open>k\<close> of the record's \<^verbatim>\<open>response\<close>; empty when the field, or the
  response, is not there.\<close>

definition field_string :: "json \<Rightarrow> string \<Rightarrow> string" where
  "field_string result k =
     (case result of
        JObj kvs \<Rightarrow>
          (case map_of kvs ''response'' of
             Some (JObj r) \<Rightarrow> (case map_of r k of Some (JStr s) \<Rightarrow> s | _ \<Rightarrow> [])
           | _ \<Rightarrow> [])
      | _ \<Rightarrow> [])"

text \<open>The first non-empty of \<^verbatim>\<open>response.output_text\<close> and \<^verbatim>\<open>response.text\<close>, or the empty
  string, stripped.\<close>

definition first_nonempty_text :: "json \<Rightarrow> string" where
  "first_nonempty_text result =
     py_strip (if field_string result ''output_text'' \<noteq> []
               then field_string result ''output_text''
               else field_string result ''text'')"

text \<open>The records of a result file: a dict whose \<^verbatim>\<open>response\<close>, when present, is a dict,
  in which \<^verbatim>\<open>output_text\<close> is a non-empty string, or is absent or false as a truth value
  while \<^verbatim>\<open>text\<close> is a string or is absent or false as a truth value.\<close>

fun field_ok :: "json option \<Rightarrow> bool" where
  "field_ok None = True"
| "field_ok (Some (JStr s)) = True"
| "field_ok (Some v) = (\<not> py_truthy v)"

fun result_record :: "json \<Rightarrow> bool" where
  "result_record (JObj kvs) =
     (case map_of kvs ''response'' of
        None \<Rightarrow> True
      | Some (JObj r) \<Rightarrow>
          (case map_of r ''output_text'' of
             Some (JStr s) \<Rightarrow> s \<noteq> [] \<or> field_ok (map_of r ''text'')
           | ot \<Rightarrow> field_ok ot \<and> field_ok (map_of r ''text''))
      | Some _ \<Rightarrow> False)"
| "result_record _ = False"

text \<open>A result file of three records; the second has neither field.\<close>

definition three_results :: "json list" where
  "three_results =
     [JObj [(''custom_id'', JStr ''chunk_1''),
            (''response'', JObj [(''output_text'', JStr '' first '')])],
      JObj [(''custom_id'', JStr ''chunk_2''), (''response'', JObj [])],
      JObj [(''custom_id'', JStr ''chunk_3''),
            (''response'', JObj [(''output_text'', JNull), (''text'', JStr ''third'')])]]"

definition results_file :: string where
  "results_file = concat (map (\<lambda>r. toy_dumps r @ [CHR 0x0A]) three_results)"

definition results_loads :: "string \<Rightarrow> exn + json" where
  "results_loads line =
     (case filter (\<lambda>r. toy_dumps r @ [CHR 0x0A] = line) three_results of
        [] \<Rightarrow> Inl JSONDecodeError
      | r # _ \<Rightarrow> Inr r)"

definition bytes_response :: "int \<Rightarrow> string \<Rightarrow> response" where
  "bytes_response code s = \<lparr>status_code = code, content = s, resp_json = Inl JSONDecodeError\<rparr>"

text \<open>A result file of three records; the second is the record of a request that failed:
  its \<^verbatim>\<open>response\<close> is \<^verbatim>\<open>null\<close>.\<close>

definition failed_results :: "json list" where
  "failed_results =
     [JObj [(''custom_id'', JStr ''chunk_1''),
            (''response'', JObj [(''output_text'', JStr '' first '')])],
      JObj [(''custom_id'', JStr ''chunk_2''), (''response'', JNull)],
      JObj [(''custom_id'', JStr ''chunk_3''),
            (''response'', JObj [(''text'', JStr ''third'')])]]"

definition failed_file :: string where
  "failed_file = concat (map (\<lambda>r. toy_dumps r @ [CHR 0x0A]) failed_results)"

definition failed_loads :: "string \<Rightarrow> exn + json" where
  "failed_loads line =
     (case filter (\<lambda>r. toy_dumps r @ [CHR 0x0A] = line) failed_results of
        [] \<Rightarrow> Inl JSONDecodeError
      | r # _ \<Rightarrow> Inr r)"

text \<open>The answers of the service in a run with two scanned chunks: two uploads, the
  upload of the manifest, the creation of the job.\<close>

definition four_answers :: "(exn + response) list" where
  "four_answers =
     [Inr (json_response 200 (JObj [(''id'', JStr ''f1'')])),
      Inr (json_response 200 (JObj [(''id'', JStr ''f2'')])),
      Inr (json_response 200 (JObj [(''id'', JStr ''m1'')])),
      Inr (json_response 200 (JObj [(''id'', JStr ''j1'')]))]"

subsection \<open>Polling\<close>

text \<open>What \<open>wait_for_job\<close> leaves in the trace for polls that saw the statuses \<open>statuses\<close>, none
  of them terminal: per poll the request, the console line, the sleep.\<close>

definition poll_events :: "'pg env \<Rightarrow> json \<Rightarrow> int \<Rightarrow> json list \<Rightarrow> event list" where
  "poll_events env job_id interval statuses =
     concat (map (\<lambda>s. [Http (poll_request env job_id), Print (status_line env s), Sleep interval])
               statuses)"

text \<open>What a poll gives when the trace so far is \<open>tr\<close>: the job object and its status, or
  nothing when the request, the decoding of the body or the lookup of \<^verbatim>\<open>"status"\<close> raises.\<close>

definition poll_answer :: "'pg env \<Rightarrow> json \<Rightarrow> event list \<Rightarrow> (json \<times> json) option" where
  "poll_answer env job_id tr =
     (case server env tr (poll_request env job_id) of
        Inl e \<Rightarrow> None
      | Inr resp \<Rightarrow>
          (case resp_json resp of
             Inl e \<Rightarrow> None
           | Inr data \<Rightarrow>
               (case py_getitem data ''status'' of
                  Inl e \<Rightarrow> None
                | Inr status \<Rightarrow> Some (data, status))))"

text \<open>The polls after the trace \<open>tr\<close> see the statuses \<open>sts\<close>, none of them terminal, and the
  next poll gives the job object \<open>data\<close> with the terminal status \<open>status\<close>.\<close>

definition polled ::
  "'pg env \<Rightarrow> json \<Rightarrow> int \<Rightarrow> event list \<Rightarrow> json list \<Rightarrow> json \<Rightarrow> json \<Rightarrow> bool" where
  "polled env job_id interval tr sts data status \<longleftrightarrow>
     (\<forall>s\<in>set sts. s \<notin> set terminal_statuses) \<and>
     (\<forall>k<length sts.
        map_option snd (poll_answer env job_id (tr @ poll_events env job_id interval (take k sts)))
          = Some (sts ! k)) \<and>
     poll_answer env job_id (tr @ poll_events env job_id interval sts) = Some (data, status) \<and>
     status \<in> set terminal_statuses"

text \<open>Job objects as the service reports them, the body of an answer that is not a job, and
  a service whose job never ends.\<close>

definition running_job :: json where
  "running_job = JObj [(''id'', JStr ''j1''), (''status'', JStr ''running'')]"

definition completed_job :: json where
  "completed_job = JObj [(''id'', JStr ''j1''), (''status'', JStr ''completed''),
                         (''output_files'', JArr [])]"

definition unavailable :: json where
  "unavailable = JObj [(''status'', JStr ''unavailable'')]"

definition always_running :: "event list \<Rightarrow> request \<Rightarrow> exn + response" where
  "always_running tr req = Inr (json_response 200 running_job)"


section \<open>The splitter\<close>

lemma digit_val_digit_char: "d < 10 \<Longrightarrow> digit_val (digit_char d) = d"
proof -
  assume "d < 10"
  then consider "d = 0" | "d = 1" | "d = 2" | "d = 3" | "d = 4" | "d = 5" | "d = 6" | "d = 7" | "d = 8" | "d = 9"
    by atomize_elim arith
  then show ?thesis
    by cases (simp_all add: digit_val_def digit_char_def)
qed

lemma digits_val_str_nat: "digits_val (str_nat n) = n"
proof (induction n rule: str_nat.induct)
  case (1 n)
  show ?case
  proof (cases "n < 10")
    case True
    then show ?thesis
      by (subst str_nat.simps) (simp add: digits_val_def digit_val_digit_char)
  next
    case False
    then have "digits_val (str_nat (n div 10)) = n div 10" using 1 by simp
    then show ?thesis using False
      by (subst str_nat.simps) (simp add: digits_val_def digit_val_digit_char)
  qed
qed

lemma str_nat_inj: "str_nat m = str_nat n \<Longrightarrow> m = n"
  by (metis digits_val_str_nat)



lemma page_at_in_range: "0 \<le> j \<Longrightarrow> j < int (length pages) \<Longrightarrow> page_at pages j = Inr (pages ! nat j)"
  by (simp add: page_at_def Let_def)

lemma add_pages_ok:
  "\<forall>j\<in>set js. 0 \<le> j \<and> j < int (length pages) \<Longrightarrow>
   add_pages pages js acc = Inr (acc @ map (\<lambda>j. pages ! nat j) js)"
  by (induction js arbitrary: acc) (simp_all add: page_at_in_range)

lemma map_nth_upto:
  assumes "0 \<le> s" "e \<le> int (length xs)"
  shows "map (\<lambda>j. xs ! nat j) [s..e - 1] = take (nat (e - s)) (drop (nat s) xs)"
proof (rule nth_equalityI)
  show "length (map (\<lambda>j. xs ! nat j) [s..e - 1]) = length (take (nat (e - s)) (drop (nat s) xs))"
    using assms by simp
next
  fix k assume "k < length (map (\<lambda>j. xs ! nat j) [s..e - 1])"
  then have k: "int k < e - s" by simp
  then have "[s..e - 1] ! k = s + int k" by simp
  moreover have "nat (s + int k) = nat s + k" using assms by simp
  ultimately show "map (\<lambda>j. xs ! nat j) [s..e - 1] ! k = take (nat (e - s)) (drop (nat s) xs) ! k"
    using k assms by simp
qed

lemma chunk_written:
  assumes "0 < c"
  shows "add_pages pages [int i * c..min (int i * c + c) (int (length pages)) - 1] []
         = Inr (chunk_of pages (nat c) i)"
proof -
  define c' where "c' = nat c"
  have c: "c = int c'" using assms by (simp add: c'_def)
  let ?s = "int (i * c')" and ?e = "min (int (i * c') + int c') (int (length pages))"
  have s0: "0 \<le> ?s" by simp
  have "\<forall>j\<in>set [?s..?e - 1]. 0 \<le> j \<and> j < int (length pages)"
    using s0 by (auto simp del: of_nat_mult)
  then have "add_pages pages [?s..?e - 1] [] = Inr (map (\<lambda>j. pages ! nat j) [?s..?e - 1])"
    by (subst add_pages_ok) simp_all
  also have "map (\<lambda>j. pages ! nat j) [?s..?e - 1] = take (nat (?e - ?s)) (drop (nat ?s) pages)"
    by (rule map_nth_upto) simp_all
  also have "nat ?s = i * c'" by (simp only: nat_int)
  also have "take (nat (?e - ?s)) (drop (i * c') pages) = take c' (drop (i * c') pages)"
  proof (cases "i * c' + c' \<le> length pages")
    case True
    then have "int (i * c' + c') \<le> int (length pages)" by (simp only: of_nat_le_iff)
    then have "?e = int (i * c') + int c'" by (simp add: min_def)
    then show ?thesis by simp
  next
    case False
    then have "\<not> int (i * c' + c') \<le> int (length pages)" by linarith
    then have e: "?e = int (length pages)" by (simp add: min_def)
    have "nat (int (length pages) - int (i * c')) = length pages - i * c'"
      by linarith
    then have "length (drop (i * c') pages) \<le> nat (?e - ?s)"
      unfolding e by (simp del: of_nat_mult)
    moreover have "length (drop (i * c') pages) \<le> c'"
      using False by simp
    ultimately show ?thesis by simp
  qed
  finally show ?thesis by (simp add: chunk_of_def c)
qed


lemma ceil_div_ceiling: "ceil_div n c = \<lceil>real_of_int n / real_of_int c\<rceil>"
  by (simp add: ceil_div_def ceiling_divide_eq_div)


lemma split_loop_ok:
  assumes "0 < c"
  shows "split_loop env pages c output_dir is file_paths w =
         (Inr (file_paths @ map (chunk_path output_dir) is),
          fold (write_chunk env pages (nat c) output_dir) is w)"
proof (induction "is" arbitrary: file_paths w)
  case Nil
  show ?case by simp
next
  case (Cons i "is")
  show ?case
    by (simp add: Let_def chunk_written [OF assms] Cons.IH write_chunk_def)
qed


lemma trace_fold_write_chunk: "trace (fold (write_chunk env pages c d) is w) = trace w"
  by (induction "is" arbitrary: w) (simp_all add: write_chunk_def write_file_def)





lemma bit_length_bounds: "0 < n \<Longrightarrow> 2 ^ (bit_length n - 1) \<le> n \<and> n < 2 ^ bit_length n"
proof (induction n rule: bit_length.induct)
  case (1 n)
  show ?case
  proof (cases "n div 2 = 0")
    case True
    with 1(2) have "n = 1" by (simp add: div_eq_0_iff) 
    then show ?thesis by (simp add: bit_length.simps [of "Suc 0"] bit_length.simps [of 0])
  next
    case False
    then have ih: "2 ^ (bit_length (n div 2) - 1) \<le> n div 2" "n div 2 < 2 ^ bit_length (n div 2)"
      using 1 by simp_all
    have pos: "0 < bit_length (n div 2)"
      using False by (simp add: bit_length.simps [of "n div 2"])
    have bl: "bit_length n = Suc (bit_length (n div 2))"
      using 1(2) by (simp add: bit_length.simps [of n])
    have "2 ^ (bit_length n - 1) = 2 * 2 ^ (bit_length (n div 2) - 1)"
      using pos by (simp add: bl power_Suc [symmetric] del: power_Suc)
    also have "\<dots> \<le> 2 * (n div 2)" using ih(1) by simp
    also have "\<dots> \<le> n" by simp
    finally have lo: "2 ^ (bit_length n - 1) \<le> n" .
    have "n < 2 * (n div 2) + 2" by linarith
    also have "\<dots> \<le> 2 * 2 ^ bit_length (n div 2)" using ih(2) by simp
    finally have "n < 2 ^ bit_length n" by (simp add: bl)
    with lo show ?thesis by simp
  qed
qed


lemma bit_length_le:
  assumes "0 < n" "n < 2 ^ k"
  shows "bit_length n \<le> k"
proof -
  have "(2::nat) ^ (bit_length n - 1) < 2 ^ k"
    using bit_length_bounds [OF assms(1)] assms(2) by linarith
  then have "bit_length n - 1 < k" by (simp only: power_strict_increasing_iff) 
  then show ?thesis by simp
qed

lemma round_half_even_bounds:
  assumes "0 < c" "c < 2 * s" "j * c < n" "n \<le> Suc j * c"
  shows "j * s < round_half_even (n * s) c \<and> round_half_even (n * s) c \<le> Suc j * s"
proof -
  define q where "q = (n * s) div c"
  define r where "r = (n * s) mod c"
  have N: "n * s = q * c + r" by (simp add: q_def r_def)
  have rc: "r < c" using assms(1) by (simp add: r_def)
  have up: "n * s \<le> (Suc j * s) * c"
  proof -
    have "n * s \<le> (Suc j * c) * s" using assms(4) by (rule mult_le_mono1)
    then show ?thesis by (simp only: mult_ac)
  qed
  have lo: "(j * s) * c + s \<le> n * s"
  proof -
    have "Suc (j * c) \<le> n" using assms(3) by simp
    then have "Suc (j * c) * s \<le> n * s" by (rule mult_le_mono1)
    then show ?thesis by (simp add: algebra_simps)
  qed
  have qle: "q \<le> Suc j * s"
    unfolding q_def using up assms(1) by (metis div_le_mono nonzero_mult_div_cancel_right less_numeral_extra(3))
  have qge: "j * s \<le> q"
  proof -
    have "(j * s) * c \<le> n * s" using lo by linarith
    then have "((j * s) * c) div c \<le> (n * s) div c" by (rule div_le_mono)
    then show ?thesis using assms(1) by (simp add: q_def)
  qed
  have top: "r = 0" if "q = Suc j * s"
  proof -
    have "q * c + r \<le> q * c" using up N that by simp
    then show ?thesis by simp
  qed
  have bot: "c < 2 * r" if "q = j * s"
  proof -
    have "s \<le> r" using lo N that by simp
    then show ?thesis using assms(2) by simp
  qed
  have cases: "round_half_even (n * s) c = q \<or> round_half_even (n * s) c = q + 1"
    by (simp add: round_half_even_def Let_def q_def)
  have r1: "round_half_even (n * s) c = q" if "r = 0"
    using that assms(1) by (simp add: round_half_even_def Let_def q_def r_def)
  have r2: "round_half_even (n * s) c = q + 1" if "c < 2 * r"
    using that by (simp add: round_half_even_def Let_def q_def r_def)
  show ?thesis
  proof (cases "q = j * s")
    case True
    then have "round_half_even (n * s) c = q + 1" using bot r2 by simp
    moreover have "0 < s" using assms(1,2) by simp
    ultimately show ?thesis using True by simp
  next
    case False
    then have lt: "j * s < q" using qge by simp
    show ?thesis
    proof (cases "q = Suc j * s")
      case True
      then have "round_half_even (n * s) c = q" using top r1 by simp
      then show ?thesis using True lt by simp
    next
      case False
      then have "q + 1 \<le> Suc j * s" using qle by simp
      then show ?thesis using cases lt by auto
    qed
  qed
qed

lemma ceiling_between:
  assumes "0 < c" "j * c < n" "n \<le> Suc j * c"
  shows "\<lceil>real n / real c\<rceil> = int (Suc j)"
proof (rule ceiling_unique)
  have "real (j * c) < real n" using assms(2) by (simp only: of_nat_less_iff)
  then show "real_of_int (int (Suc j)) - 1 < real n / real c"
    using assms(1) by (simp add: pos_less_divide_eq)
  have "real n \<le> real (Suc j * c)" using assms(3) by (simp only: of_nat_le_iff)
  then show "real n / real c \<le> real_of_int (int (Suc j))"
    using assms(1) by (simp add: pos_divide_le_eq algebra_simps)
qed

lemma ceiling_witness:
  assumes "0 < c" "0 < n"
  shows "\<exists>j. j * c < n \<and> n \<le> Suc j * c"
proof -
  define j where "j = (n - 1) div c"
  have "j * c \<le> n - 1" by (simp add: j_def)
  then have a: "j * c < n" using assms(2) by simp
  have "n - 1 < Suc j * c" using assms(1) unfolding j_def
    by (metis dividend_less_times_div mult.commute mult_Suc add.commute)
  then have "n \<le> Suc j * c" using assms(2) by simp
  with a show ?thesis by blast
qed

lemma math_ceil_truediv_pos:
  assumes "0 < n" "n < 2 ^ 53" "0 < c" "c < 2 ^ 1075"
  shows "\<exists>q. py_truediv (int n) (int c) = Inr q \<and> math_ceil q = ceil_div (int n) (int c)"
proof -
  define e where "e = quot_exponent n c"
  define p where "p = max (e - 52) (- 1074)"
  define s :: nat where "s = 2 ^ nat (- p)"
  define m where "m = round_half_even (n * s) c"
  have bn: "bit_length n \<le> 53" using assms(1,2) by (rule bit_length_le)
  have bc: "c < 2 ^ bit_length c" using bit_length_bounds [OF assms(3)] by simp
  have ed: "e \<le> int (bit_length n) - int (bit_length c)"
    by (simp add: e_def quot_exponent_def Let_def)
  have bc1: "1 \<le> bit_length c" using assms(3) by (simp add: bit_length.simps [of c])
  have p0: "p \<le> 0" using ed bn bc1 by (simp add: p_def)
  have np: "nat p = 0" using p0 by simp
  have cs: "c < 2 * s"
  proof (cases "e - 52 \<le> - 1074")
    case True
    then have "p = - 1074" by (simp add: p_def)
    then have "2 * s = 2 ^ 1075" by (simp add: s_def)
    then show ?thesis using assms(4) by simp
  next
    case False
    then have "p = e - 52" by (simp add: p_def)
    then have "bit_length c \<le> Suc (nat (- p))" using ed bn by simp
    then have "(2::nat) ^ bit_length c \<le> 2 ^ Suc (nat (- p))"
      by (simp only: power_increasing_iff)
    then show ?thesis using bc by (simp add: s_def)
  qed
  obtain j where j: "j * c < n" "n \<le> Suc j * c"
    using ceiling_witness [OF assms(3,1)] by blast
  have mb: "j * s < m" "m \<le> Suc j * s"
    using round_half_even_bounds [OF assms(3) cs j] by (simp_all add: m_def)
  have spos: "0 < s" by (simp add: s_def)
  have e52: "e \<le> 52" using ed bn bc1 by simp
  have td: "py_truediv (int n) (int c) = Inr (int m, p)"
    using assms(1,3) e52
    by (simp add: py_truediv_def Let_def e_def [symmetric] p_def [symmetric] np s_def [symmetric]
        m_def [symmetric])
  have cm: "\<lceil>real m / real s\<rceil> = int (Suc j)"
    using spos mb by (rule ceiling_between)
  have "math_ceil (int m, p) = \<lceil>real m / real s\<rceil>"
  proof (cases "0 \<le> p")
    case True
    then have "p = 0" using p0 by simp
    then show ?thesis by (simp add: math_ceil_def s_def)
  next
    case False
    have "real_of_int (int m) / real_of_int (int s) = real m / real s" by simp
    then have "\<lceil>real m / real s\<rceil> = - ((- int m) div int s)"
      by (metis ceiling_divide_eq_div)
    then show ?thesis using False by (simp add: math_ceil_def s_def)
  qed
  moreover have "ceil_div (int n) (int c) = int (Suc j)"
    using ceiling_between [OF assms(3) j] by (simp add: ceil_div_ceiling)
  ultimately show ?thesis using td cm by simp
qed

lemma math_ceil_truediv:
  assumes "0 \<le> n" "n < 2 ^ 53" "1 \<le> c" "c < 2 ^ 1075"
  shows "\<exists>q. py_truediv n c = Inr q \<and> math_ceil q = ceil_div n c"
proof (cases "n = 0")
  case True
  then show ?thesis using assms(3) by (simp add: py_truediv_def math_ceil_def ceil_div_def)
next
  case False
  have "0 < nat n" "nat n < 2 ^ 53" "0 < nat c" "nat c < 2 ^ 1075"
    using assms False by (simp_all add: nat_less_iff)
  then have "\<exists>q. py_truediv (int (nat n)) (int (nat c)) = Inr q \<and>
      math_ceil q = ceil_div (int (nat n)) (int (nat c))"
    by (rule math_ceil_truediv_pos)
  then show ?thesis using assms by simp
qed


lemma truediv_returns:
  assumes "0 \<le> n" "n < 2 ^ 53" "1 \<le> c"
  shows "\<exists>q. py_truediv n c = Inr q"
proof (cases "n = 0")
  case True
  then show ?thesis using assms(3) by (simp add: py_truediv_def)
next
  case False
  have n: "0 < nat n" "nat n < 2 ^ 53" using assms False by (simp_all add: nat_less_iff)
  have bn: "bit_length (nat n) \<le> 53" using n by (rule bit_length_le)
  have "0 < nat c" using assms(3) by simp
  then have bc1: "1 \<le> bit_length (nat c)" by (simp add: bit_length.simps [of "nat c"])
  have "quot_exponent (nat n) (nat c) \<le> int (bit_length (nat n)) - int (bit_length (nat c))"
    by (simp add: quot_exponent_def Let_def)
  then have "quot_exponent (nat n) (nat c) \<le> 52" using bn bc1 by simp
  then show ?thesis using assms False by (simp add: py_truediv_def Let_def)
qed

lemma os_makedirs_ok:
  "output_dir \<noteq> [] \<Longrightarrow> files w output_dir = None \<Longrightarrow>
   os_makedirs output_dir w = (Inr (), w\<lparr>dirs := insert output_dir (dirs w)\<rparr>)"
  by (simp add: os_makedirs_def)



lemma split_pdf_result:
  assumes "1 \<le> chunk_size" "chunk_size < 2 ^ 1075" "int (length pages) < 2 ^ 53"
    and "output_dir \<noteq> []" "files w output_dir = None"
    and "files w input_pdf = Some bytes" "pdf_reader env bytes = Inr pages"
  shows "split_pdf env input_pdf chunk_size output_dir w =
     (Inr (map (chunk_path output_dir) [0..<nat (ceil_div (int (length pages)) chunk_size)]),
      py_print (''Split into '' @ py_str_int (int (nat (ceil_div (int (length pages)) chunk_size)))
                @ '' chunks of up to '' @ py_str_int chunk_size @ '' pages.'')
        (fold (write_chunk env pages (nat chunk_size) output_dir)
           [0..<nat (ceil_div (int (length pages)) chunk_size)]
           (w\<lparr>dirs := insert output_dir (dirs w)\<rparr>)))"
proof -
  have c: "0 < chunk_size" using assms(1) by simp
  obtain q where q: "py_truediv (int (length pages)) chunk_size = Inr q"
      "math_ceil q = ceil_div (int (length pages)) chunk_size"
    using math_ceil_truediv [OF _ assms(3) assms(1) assms(2)] by auto
  show ?thesis
    unfolding split_pdf_def os_makedirs_ok [OF assms(4,5)]
    by (simp add: read_file_def assms(6,7) q Let_def split_loop_ok [OF c] and_then_def)
qed




section \<open>The classifier and the failures of the splitter\<close>

lemma py_strip_Nil_iff: "py_strip s = [] \<longleftrightarrow> (\<forall>c\<in>set s. py_isspace c)"
proof
  assume a: "py_strip s = []"
  have all: "\<forall>x\<in>set (dropWhile py_isspace s). py_isspace x"
    using a by (simp add: py_strip_def)
  have "dropWhile py_isspace s = []"
  proof (rule ccontr)
    assume n: "dropWhile py_isspace s \<noteq> []"
    then have "\<not> py_isspace (hd (dropWhile py_isspace s))" by (rule hd_dropWhile)
    moreover have "hd (dropWhile py_isspace s) \<in> set (dropWhile py_isspace s)"
      using n by (rule hd_in_set)
    ultimately show False using all by blast
  qed
  then show "\<forall>c\<in>set s. py_isspace c" by simp
next
  assume "\<forall>c\<in>set s. py_isspace c"
  then show "py_strip s = []" by (auto simp: py_strip_def dest: set_dropWhileD)
qed

text \<open>
  Claim C2. \<open>is_text_page\<close> is true exactly when the probing extraction
  (\<^verbatim>\<open>maxpages=1\<close>) returns a text that is not empty once stripped, that is, a text with a
  character that is not whitespace; it is false in every other case, and in particular
  when the extraction raises. The result is a truth value: no exception reaches the caller.
\<close>

theorem is_text_page_iff:
  "(is_text_page env w pdf_path \<longleftrightarrow>
      (\<exists>text. extract_text env w pdf_path 1 = Inr text \<and> py_strip text \<noteq> [] \<and>
              (\<exists>c\<in>set text. \<not> py_isspace c))) \<and>
   (\<forall>e. extract_text env w pdf_path 1 = Inl e \<longrightarrow> \<not> is_text_page env w pdf_path)"
  by (auto simp: is_text_page_def py_strip_Nil_iff split: sum.splits)

theorem is_text_page_iff_witness:
  "extract_text (toy_env (scripted []) no_loads) (toy_world ''junk'') ''Chatbot Proposal V1.1.pdf'' 1
     = Inl PDFSyntaxError \<and>
   \<not> is_text_page (toy_env (scripted []) no_loads) (toy_world ''junk'') ''Chatbot Proposal V1.1.pdf''"
proof -
  have h: "extract_text (toy_env (scripted []) no_loads) (toy_world ''junk'')
             ''Chatbot Proposal V1.1.pdf'' 1 = Inl PDFSyntaxError"
    by (simp add: extract_text_def read_file_def toy_world_def toy_env_def)
  show ?thesis
    using h is_text_page_iff [of "toy_env (scripted []) no_loads" "toy_world ''junk''"
        "''Chatbot Proposal V1.1.pdf''"]
    by blast
qed






section \<open>The manifest\<close>

lemma http_requests_append: "http_requests (xs @ ys) = http_requests xs @ http_requests ys"
  by (induction xs rule: http_requests.induct) simp_all

lemma ndjson_loop_eq:
  "ndjson_loop env i ids buf =
     buf @ concat (map (\<lambda>k. json_dumps env (ndjson_line (i + k) (ids ! k)) @ [CHR 0x0A])
                    [0..<length ids])"
proof (induction ids arbitrary: i buf)
  case Nil
  show ?case by simp
next
  case (Cons fid fids)
  have "[0..<length (fid # fids)] = 0 # map Suc [0..<length fids]"
    by (simp add: upt_conv_Cons map_Suc_upt del: upt_Suc)
  then show ?case
    by (simp add: Cons.IH comp_def del: upt_Suc)
qed

lemma lines_from_line:
  "CHR 0x0A \<notin> set l \<Longrightarrow> lines_from (l @ CHR 0x0A # rest) cur = (cur @ l @ [CHR 0x0A]) # lines_from rest []"
  by (induction l arbitrary: cur) auto

lemma lines_from_concat:
  "\<forall>l\<in>set ls. CHR 0x0A \<notin> set l \<Longrightarrow>
   lines_from (concat (map (\<lambda>l. l @ [CHR 0x0A]) ls)) [] = map (\<lambda>l. l @ [CHR 0x0A]) ls"
  by (induction ls) (simp_all add: lines_from_line)

lemma create_ndjson_result:
  "create_ndjson env ids output_path w =
     (Inr output_path,
      py_print (''NDJSON file created with '' @ py_str_int (int (length ids)) @ '' OCR tasks.'')
        (write_file output_path
           (concat (map (\<lambda>k. json_dumps env (ndjson_line k (ids ! k)) @ [CHR 0x0A]) [0..<length ids])) w))"
  by (simp add: create_ndjson_def Let_def ndjson_loop_eq)

text \<open>
  Claim C5. \<open>create_ndjson\<close> writes, for the list of uploaded file ids, one line per id
  in the order of the list (provided the serializer puts no line feed inside a record, as
  \<^verbatim>\<open>json.dumps\<close> does): line \<open>k\<close>, counted from 1, is the record with the correlation id
  \<^verbatim>\<open>chunk_<k>\<close> and a body that names the model \<^verbatim>\<open>mistral-ocr\<close> and the \<open>k\<close>-th id as input.
  There are as many lines as ids, the correlation ids are pairwise different, and no
  request is sent.
\<close>

theorem create_ndjson_manifest:
  assumes "\<forall>k<length ids. CHR 0x0A \<notin> set (json_dumps env (ndjson_line k (ids ! k)))"
  shows "\<exists>w' manifest.
     create_ndjson env ids output_path w = (Inr output_path, w') \<and>
     files w' output_path = Some manifest \<and>
     lines_from manifest [] =
       map (\<lambda>k. json_dumps env
                  (JObj [(''custom_id'', JStr (''chunk_'' @ str_nat (k + 1))),
                         (''body'', JObj [(''model'', JStr ''mistral-ocr''), (''input'', ids ! k)])])
                @ [CHR 0x0A])
           [0..<length ids] \<and>
     length (lines_from manifest []) = length ids \<and>
     distinct (map (\<lambda>k. ''chunk_'' @ str_nat (k + 1)) [0..<length ids]) \<and>
     http_requests (trace w') = http_requests (trace w)"
proof -
  let ?recs = "map (\<lambda>k. json_dumps env (ndjson_line k (ids ! k))) [0..<length ids]"
  let ?manifest = "concat (map (\<lambda>l. l @ [CHR 0x0A]) ?recs)"
  let ?w' = "py_print (''NDJSON file created with '' @ py_str_int (int (length ids)) @ '' OCR tasks.'')
        (write_file output_path ?manifest w)"
  have res: "create_ndjson env ids output_path w = (Inr output_path, ?w')"
    by (simp add: create_ndjson_result comp_def)
  have f: "files ?w' output_path = Some ?manifest"
    by (simp add: py_print_def write_file_def)
  have "\<forall>l\<in>set ?recs. CHR 0x0A \<notin> set l" using assms by auto
  then have "lines_from ?manifest [] = map (\<lambda>l. l @ [CHR 0x0A]) ?recs"
    by (rule lines_from_concat)
  then have ls: "lines_from ?manifest [] =
       map (\<lambda>k. json_dumps env
                  (JObj [(''custom_id'', JStr (''chunk_'' @ str_nat (k + 1))),
                         (''body'', JObj [(''model'', JStr ''mistral-ocr''), (''input'', ids ! k)])])
                @ [CHR 0x0A])
           [0..<length ids]"
    by (simp add: comp_def ndjson_line_def)
  have len: "length (lines_from ?manifest []) = length ids" unfolding ls by simp
  have d: "distinct (map (\<lambda>k. ''chunk_'' @ str_nat (k + 1)) [0..<length ids])"
    by (auto simp: distinct_map inj_on_def dest: str_nat_inj)
  have t: "http_requests (trace ?w') = http_requests (trace w)"
    by (simp add: py_print_def write_file_def http_requests_append)
  from res f ls len d t show ?thesis by blast
qed


theorem create_ndjson_manifest_witness:
  "CHR 0x0A \<notin> set (json_dumps (toy_env (scripted []) no_loads) (ndjson_line 0 (JStr ''f1''))) \<and>
   CHR 0x0A \<notin> set (json_dumps (toy_env (scripted []) no_loads) (ndjson_line 1 (JStr ''f2''))) \<and>
   (\<exists>w' manifest.
     create_ndjson (toy_env (scripted []) no_loads) [JStr ''f1'', JStr ''f2''] ''ocr_batch.ndjson''
       three_chunks = (Inr ''ocr_batch.ndjson'', w') \<and>
     files w' ''ocr_batch.ndjson'' = Some manifest \<and>
     lines_from manifest [] =
       map (\<lambda>k. json_dumps (toy_env (scripted []) no_loads)
                  (JObj [(''custom_id'', JStr (''chunk_'' @ str_nat (k + 1))),
                         (''body'', JObj [(''model'', JStr ''mistral-ocr''),
                                          (''input'', [JStr ''f1'', JStr ''f2''] ! k)])])
                @ [CHR 0x0A])
           [0..<length [JStr ''f1'', JStr ''f2'']] \<and>
     length (lines_from manifest []) = length [JStr ''f1'', JStr ''f2''] \<and>
     distinct (map (\<lambda>k. ''chunk_'' @ str_nat (k + 1)) [0..<length [JStr ''f1'', JStr ''f2'']]) \<and>
     http_requests (trace w') = http_requests (trace three_chunks))"
proof -
  have h: "\<forall>k<length [JStr ''f1'', JStr ''f2''].
      CHR 0x0A \<notin> set (json_dumps (toy_env (scripted []) no_loads)
                          (ndjson_line k ([JStr ''f1'', JStr ''f2''] ! k)))"
    by (simp add: All_less_Suc toy_env_def ndjson_line_def quoted_def str_nat.simps digit_char_def)
  have h0: "CHR 0x0A \<notin> set (json_dumps (toy_env (scripted []) no_loads) (ndjson_line 0 (JStr ''f1'')))"
    using h by auto
  have h1: "CHR 0x0A \<notin> set (json_dumps (toy_env (scripted []) no_loads) (ndjson_line 1 (JStr ''f2'')))"
    using h by auto
  show ?thesis
    by (intro conjI h0 h1 create_ndjson_manifest [OF h])
qed

lemma classify_filter:
  "classify env w paths text_pages scanned_pages =
     (text_pages @ filter (is_text_page env w) paths,
      scanned_pages @ filter (\<lambda>p. \<not> is_text_page env w p) paths)"
  by (induction paths arbitrary: text_pages scanned_pages) simp_all

section \<open>The downloaded results\<close>

lemma py_strip_Nil [simp]: "py_strip [] = []"
  by (simp add: py_strip_def)

lemma first_text_core:
  assumes "case a of Some (JStr s) \<Rightarrow> s \<noteq> [] \<or> field_ok b | ot \<Rightarrow> field_ok ot \<and> field_ok b"
  shows "(if py_truthy (case a of None \<Rightarrow> JNull | Some v \<Rightarrow> v)
          then py_strip_method (case a of None \<Rightarrow> JNull | Some v \<Rightarrow> v)
          else py_strip_method (py_or (case b of None \<Rightarrow> JNull | Some v \<Rightarrow> v) (JStr [])))
         = Inr (py_strip (if (case a of Some (JStr s) \<Rightarrow> s | _ \<Rightarrow> []) \<noteq> []
                          then (case a of Some (JStr s) \<Rightarrow> s | _ \<Rightarrow> [])
                          else (case b of Some (JStr s) \<Rightarrow> s | _ \<Rightarrow> [])))"
proof (cases a)
  case None
  then have "field_ok b" using assms by simp
  then show ?thesis using None
    by (cases b rule: field_ok.cases) (simp_all add: py_or_def)
next
  case (Some av)
  show ?thesis
  proof (cases "py_truthy av")
    case True
    then obtain s where "av = JStr s" "s \<noteq> []"
      using assms Some by (cases av) simp_all
    then show ?thesis using Some by simp
  next
    case False
    then have b: "field_ok b" using assms Some by (cases av) auto
    have e: "(case a of Some (JStr s) \<Rightarrow> s | _ \<Rightarrow> []) = []"
      using False Some by (cases av) simp_all
    show ?thesis using b False
      unfolding e
      by (cases b rule: field_ok.cases) (simp_all add: py_or_def Some)
  qed
qed

lemma result_text_record:
  assumes "result_record result"
  shows "result_text result = Inr (first_nonempty_text result)"
proof (cases result)
  case (JObj kvs)
  show ?thesis
  proof (cases "map_of kvs ''response''")
    case None
    then show ?thesis
      by (simp add: JObj result_text_def response_field_def first_nonempty_text_def
          field_string_def py_or_def)
  next
    case (Some resp)
    with assms JObj obtain r where r: "resp = JObj r"
      by (cases resp) simp_all
    have ok: "case map_of r ''output_text'' of
             Some (JStr s) \<Rightarrow> s \<noteq> [] \<or> field_ok (map_of r ''text'')
           | ot \<Rightarrow> field_ok ot \<and> field_ok (map_of r ''text'')"
      using assms JObj Some r by simp
    have lhs: "result_text result =
        (if py_truthy (case map_of r ''output_text'' of None \<Rightarrow> JNull | Some v \<Rightarrow> v)
          then py_strip_method (case map_of r ''output_text'' of None \<Rightarrow> JNull | Some v \<Rightarrow> v)
          else py_strip_method (py_or (case map_of r ''text'' of None \<Rightarrow> JNull | Some v \<Rightarrow> v)
                 (JStr [])))"
      by (simp add: JObj Some r result_text_def response_field_def)
    have rhs: "first_nonempty_text result =
        py_strip (if (case map_of r ''output_text'' of Some (JStr s) \<Rightarrow> s | _ \<Rightarrow> []) \<noteq> []
                  then (case map_of r ''output_text'' of Some (JStr s) \<Rightarrow> s | _ \<Rightarrow> [])
                  else (case map_of r ''text'' of Some (JStr s) \<Rightarrow> s | _ \<Rightarrow> []))"
      by (simp add: JObj Some r first_nonempty_text_def field_string_def)
    show ?thesis
      unfolding lhs rhs by (rule first_text_core [OF ok])
  qed
qed (use assms in simp_all)

lemma parse_lines_records:
  assumes "\<forall>line\<in>set lines. \<exists>result. json_loads env line = Inr result \<and> result_record result"
  shows "\<exists>results. parse_lines env lines texts = Inr (texts @ map first_nonempty_text results) \<and>
                   map (json_loads env) lines = map Inr results"
  using assms
proof (induction lines arbitrary: texts)
  case Nil
  show ?case by simp
next
  case (Cons line lines)
  from Cons.prems obtain result where
    r: "json_loads env line = Inr result" "result_record result" by auto
  from Cons.prems have "\<forall>l\<in>set lines. \<exists>result. json_loads env l = Inr result \<and> result_record result"
    by simp
  from Cons.IH [OF this, of "texts @ [first_nonempty_text result]"] obtain results where
    rs: "parse_lines env lines (texts @ [first_nonempty_text result]) =
           Inr ((texts @ [first_nonempty_text result]) @ map first_nonempty_text results)"
        "map (json_loads env) lines = map Inr results"
    by blast
  have "parse_lines env (line # lines) texts =
          Inr (texts @ map first_nonempty_text (result # results))"
    using r rs(1) by (simp add: result_text_record)
  moreover have "map (json_loads env) (line # lines) = map Inr (result # results)"
    using r(1) rs(2) by simp
  ultimately show ?case by blast
qed

text \<open>
  What \<open>download_results\<close> returns on records of the result schema. When the download
  succeeds and every line of the downloaded file parses to a result record,
  \<open>download_results\<close> returns one text per line, in the order of the lines: the first
  non-empty of the record's \<^verbatim>\<open>response.output_text\<close> and \<^verbatim>\<open>response.text\<close>, or the empty
  string, stripped. The downloaded bytes are kept in the file \<open>save_path\<close>.
\<close>

theorem download_results_texts:
  assumes "server env (trace w) (download_request env output_file_id) = Inr r"
    and "\<not> (400 \<le> status_code r \<and> status_code r < 600)"
    and "\<forall>line\<in>set (file_lines (content r)).
           \<exists>result. json_loads env line = Inr result \<and> result_record result"
  shows "\<exists>results w'.
     download_results env output_file_id save_path w = (Inr (map first_nonempty_text results), w') \<and>
     map (json_loads env) (file_lines (content r)) = map Inr results \<and>
     files w' save_path = Some (content r) \<and>
     (\<forall>i<length results.
        field_string (results ! i) ''output_text'' = [] \<and> field_string (results ! i) ''text'' = []
        \<longrightarrow> map first_nonempty_text results ! i = [])"
proof -
  from parse_lines_records [OF assms(3), of "[]"] obtain results where
    p: "parse_lines env (file_lines (content r)) [] = Inr (map first_nonempty_text results)"
       "map (json_loads env) (file_lines (content r)) = map Inr results"
    by auto
  let ?w' = "py_print (''OCR results downloaded to: '' @ save_path)
               (write_file save_path (content r)
                  (w\<lparr>trace := trace w @ [Http (download_request env output_file_id)]\<rparr>))"
  have res: "download_results env output_file_id save_path w =
               (Inr (map first_nonempty_text results), ?w')"
    using assms(1,2) p(1)
    by (simp add: download_results_def http_send_def and_then_def raise_for_status_def Let_def
        read_file_def py_print_def write_file_def)
  have f: "files ?w' save_path = Some (content r)"
    by (simp add: py_print_def write_file_def)
  have e: "\<forall>i<length results.
        field_string (results ! i) ''output_text'' = [] \<and> field_string (results ! i) ''text'' = []
        \<longrightarrow> map first_nonempty_text results ! i = []"
    by (simp add: first_nonempty_text_def)
  from res p(2) f e show ?thesis by blast
qed


lemma results_file_lines:
  "file_lines results_file = map (\<lambda>r. toy_dumps r @ [CHR 0x0A]) three_results"
  by (simp add: file_lines_def results_file_def three_results_def quoted_def)

lemma results_loads_lines:
  "map results_loads (map (\<lambda>r. toy_dumps r @ [CHR 0x0A]) three_results) = map Inr three_results"
  by (simp add: results_loads_def three_results_def quoted_def)

theorem download_results_texts_witness:
  "server (toy_env (scripted [Inr (bytes_response 200 results_file)]) results_loads)
     (trace three_chunks)
     (download_request (toy_env (scripted [Inr (bytes_response 200 results_file)]) results_loads)
        (JStr ''out''))
     = Inr (bytes_response 200 results_file) \<and>
   \<not> (400 \<le> status_code (bytes_response 200 results_file) \<and>
      status_code (bytes_response 200 results_file) < 600) \<and>
   map (json_loads (toy_env (scripted [Inr (bytes_response 200 results_file)]) results_loads))
     (file_lines (content (bytes_response 200 results_file))) = map Inr three_results \<and>
   list_all result_record three_results \<and>
   fst (download_results (toy_env (scripted [Inr (bytes_response 200 results_file)]) results_loads)
          (JStr ''out'') ''ocr_results.ndjson'' three_chunks)
     = Inr [''first'', [], ''third'']"
proof -
  let ?E = "toy_env (scripted [Inr (bytes_response 200 results_file)]) results_loads"
  let ?R = "bytes_response 200 results_file"
  have h1: "server ?E (trace three_chunks) (download_request ?E (JStr ''out'')) = Inr ?R"
    by (simp add: toy_env_def scripted_def three_chunks_def)
  have h2: "\<not> (400 \<le> status_code ?R \<and> status_code ?R < 600)"
    by (simp add: bytes_response_def)
  have c: "content ?R = results_file" by (simp add: bytes_response_def)
  have l: "json_loads ?E = results_loads" by (simp add: toy_env_def)
  have m: "map (json_loads ?E) (file_lines (content ?R)) = map Inr three_results"
    unfolding c l results_file_lines by (rule results_loads_lines)
  have wf: "list_all result_record three_results"
    by (simp add: three_results_def)
  have h3: "\<forall>line\<in>set (file_lines (content ?R)).
              \<exists>result. json_loads ?E line = Inr result \<and> result_record result"
  proof
    fix line assume "line \<in> set (file_lines (content ?R))"
    then obtain i where i: "i < length (file_lines (content ?R))" "line = file_lines (content ?R) ! i"
      by (auto simp: in_set_conv_nth)
    have len: "length (file_lines (content ?R)) = length three_results"
      using m by (metis length_map)
    have "map (json_loads ?E) (file_lines (content ?R)) ! i = map Inr three_results ! i"
      using m by simp
    then have "json_loads ?E line = Inr (three_results ! i)" using i len by simp
    moreover have "result_record (three_results ! i)"
      using wf i len by (simp add: list_all_length)
    ultimately show "\<exists>result. json_loads ?E line = Inr result \<and> result_record result" by blast
  qed
  from download_results_texts [OF h1 h2 h3, of "''ocr_results.ndjson''"] obtain results w' where
    d: "download_results ?E (JStr ''out'') ''ocr_results.ndjson'' three_chunks =
          (Inr (map first_nonempty_text results), w')"
       "map (json_loads ?E) (file_lines (content ?R)) = map Inr results"
    by blast
  have "map Inr results = (map Inr three_results :: (exn + json) list)" using d(2) m by simp
  then have "results = three_results" by simp
  moreover have "map first_nonempty_text three_results = [''first'', [], ''third'']"
    by (simp add: three_results_def first_nonempty_text_def field_string_def py_strip_def
        py_isspace_def)
  ultimately have "fst (download_results ?E (JStr ''out'') ''ocr_results.ndjson'' three_chunks)
     = Inr [''first'', [], ''third'']"
    using d(1) by simp
  with h1 h2 m wf show ?thesis by blast
qed

text \<open>
  Claim C4 does not hold of the code. A record without \<^verbatim>\<open>response.output_text\<close> and
  without \<^verbatim>\<open>response.text\<close> gives the empty string when the key \<^verbatim>\<open>response\<close> is absent or
  holds a dict, the cases that the default of \<^verbatim>\<open>result.get("response", {})\<close> provides for.
  When the key is there with the value \<^verbatim>\<open>null\<close>, the default is not used, \<^verbatim>\<open>.get\<close> is
  called on \<^verbatim>\<open>None\<close>, and \<open>download_results\<close> raises \<^verbatim>\<open>AttributeError\<close>: on the file of three
  records below, whose second record has neither field, no text is returned at all.
\<close>

theorem download_results_null_response:
  "content (bytes_response 200 failed_file) =
     ''{'' @ quoted ''custom_id'' @ '': '' @ quoted ''chunk_1'' @ '', '' @ quoted ''response'' @ '': {''
       @ quoted ''output_text'' @ '': '' @ quoted '' first '' @ ''}}'' @ [CHR 0x0A]
     @ ''{'' @ quoted ''custom_id'' @ '': '' @ quoted ''chunk_2'' @ '', '' @ quoted ''response''
       @ '': null}'' @ [CHR 0x0A]
     @ ''{'' @ quoted ''custom_id'' @ '': '' @ quoted ''chunk_3'' @ '', '' @ quoted ''response'' @ '': {''
       @ quoted ''text'' @ '': '' @ quoted ''third'' @ ''}}'' @ [CHR 0x0A] \<and>
   map (json_loads (toy_env (scripted [Inr (bytes_response 200 failed_file)]) failed_loads))
     (file_lines (content (bytes_response 200 failed_file))) = map Inr failed_results \<and>
   field_string (failed_results ! 1) ''output_text'' = [] \<and>
   field_string (failed_results ! 1) ''text'' = [] \<and>
   result_text (failed_results ! 1) = Inl AttributeError \<and>
   fst (download_results (toy_env (scripted [Inr (bytes_response 200 failed_file)]) failed_loads)
          (JStr ''out'') ''ocr_results.ndjson'' three_chunks)
     = Inl AttributeError"
proof -
  let ?E = "toy_env (scripted [Inr (bytes_response 200 failed_file)]) failed_loads"
  have c: "content (bytes_response 200 failed_file) =
     ''{'' @ quoted ''custom_id'' @ '': '' @ quoted ''chunk_1'' @ '', '' @ quoted ''response'' @ '': {''
       @ quoted ''output_text'' @ '': '' @ quoted '' first '' @ ''}}'' @ [CHR 0x0A]
     @ ''{'' @ quoted ''custom_id'' @ '': '' @ quoted ''chunk_2'' @ '', '' @ quoted ''response''
       @ '': null}'' @ [CHR 0x0A]
     @ ''{'' @ quoted ''custom_id'' @ '': '' @ quoted ''chunk_3'' @ '', '' @ quoted ''response'' @ '': {''
       @ quoted ''text'' @ '': '' @ quoted ''third'' @ ''}}'' @ [CHR 0x0A]"
    by (simp add: bytes_response_def failed_file_def failed_results_def)
  have fl: "file_lines failed_file = map (\<lambda>r. toy_dumps r @ [CHR 0x0A]) failed_results"
    by (simp add: file_lines_def failed_file_def failed_results_def quoted_def)
  have ld: "map failed_loads (map (\<lambda>r. toy_dumps r @ [CHR 0x0A]) failed_results) = map Inr failed_results"
    by (simp add: failed_loads_def failed_results_def quoted_def)
  have m: "map (json_loads ?E) (file_lines (content (bytes_response 200 failed_file)))
      = map Inr failed_results"
  proof -
    have c': "content (bytes_response 200 failed_file) = failed_file"
      by (simp add: bytes_response_def)
    have l: "json_loads ?E = failed_loads" by (simp add: toy_env_def)
    show ?thesis unfolding c' l fl by (rule ld)
  qed
  have f1: "field_string (failed_results ! 1) ''output_text'' = []"
    and f2: "field_string (failed_results ! 1) ''text'' = []"
    by (simp_all add: failed_results_def field_string_def)
  have rt: "result_text (failed_results ! 1) = Inl AttributeError"
    by (simp add: failed_results_def result_text_def response_field_def)
  have pl: "parse_lines ?E (map (\<lambda>r. toy_dumps r @ [CHR 0x0A]) failed_results) [] = Inl AttributeError"
    using ld
    by (simp add: failed_results_def toy_env_def result_text_def response_field_def py_strip_def
        py_isspace_def)
  have h1: "server ?E (trace three_chunks) (download_request ?E (JStr ''out''))
      = Inr (bytes_response 200 failed_file)"
    by (simp add: toy_env_def scripted_def three_chunks_def)
  have st: "raise_for_status (bytes_response 200 failed_file) = Inr ()"
    by (simp add: raise_for_status_def bytes_response_def)
  have cc: "content (bytes_response 200 failed_file) = failed_file"
    by (simp add: bytes_response_def)
  have d: "fst (download_results ?E (JStr ''out'') ''ocr_results.ndjson'' three_chunks)
     = Inl AttributeError"
    by (simp add: download_results_def http_send_def h1 and_then_def st cc Let_def read_file_def
        py_print_def write_file_def fl pl)
  show ?thesis using c m f1 f2 rt d by simp
qed

section \<open>A run without scanned chunks\<close>

lemma split_loop_trace:
  "split_loop env pages c d is fp w = (r, w') \<Longrightarrow> trace w' = trace w"
proof (induction "is" arbitrary: fp w)
  case Nil
  then show ?case by simp
next
  case (Cons i "is")
  show ?case
  proof (cases "add_pages pages [int i * c..min (int i * c + c) (int (length pages)) - 1] []")
    case (Inl e)
    then show ?thesis using Cons.prems by (simp add: Let_def)
  next
    case (Inr written)
    then have "split_loop env pages c d is (fp @ [chunk_path d i])
                 (write_file (chunk_path d i) (pdf_writer env written) w) = (r, w')"
      using Cons.prems by (simp add: Let_def)
    from Cons.IH [OF this] show ?thesis by (simp add: write_file_def)
  qed
qed

lemma os_makedirs_trace: "os_makedirs d w = (r, w') \<Longrightarrow> trace w' = trace w"
  by (auto simp: os_makedirs_def split: if_splits)

lemma split_pdf_requests:
  assumes "split_pdf env input_pdf chunk_size output_dir w = (r, w')"
  shows "http_requests (trace w') = http_requests (trace w)"
proof -
  obtain r0 w0 where mk: "os_makedirs output_dir w = (r0, w0)"
    by (cases "os_makedirs output_dir w") blast
  have t0: "trace w0 = trace w" using mk by (rule os_makedirs_trace)
  show ?thesis
  proof (cases r0)
    case (Inl e)
    then show ?thesis using assms mk t0 by (simp add: split_pdf_def and_then_def)
  next
    case (Inr u)
    note r0 = Inr
    show ?thesis
    proof (cases "read_file w0 input_pdf")
      case (Inl e)
      then show ?thesis using assms mk r0 t0 by (simp add: split_pdf_def and_then_def)
    next
      case (Inr bytes)
      note rf = Inr
      show ?thesis
      proof (cases "pdf_reader env bytes")
        case (Inl e)
        then show ?thesis using assms mk r0 rf t0 by (simp add: split_pdf_def and_then_def)
      next
        case (Inr pages)
        note pg = Inr
        show ?thesis
        proof (cases "py_truediv (int (length pages)) chunk_size")
          case (Inl e)
          then show ?thesis using assms mk r0 rf pg t0 by (simp add: split_pdf_def and_then_def)
        next
          case (Inr q)
          obtain r1 w1 where sl: "split_loop env pages chunk_size output_dir
              [0..<nat (math_ceil q)] [] w0 = (r1, w1)"
            by (cases "split_loop env pages chunk_size output_dir
              [0..<nat (math_ceil q)] [] w0") blast
          have t: "trace w1 = trace w0" using sl by (rule split_loop_trace)
          show ?thesis
            using assms mk r0 rf pg Inr sl t t0
            by (cases r1) (auto simp: split_pdf_def Let_def and_then_def py_print_def http_requests_append)
        qed
      qed
    qed
  qed
qed

lemma is_text_page_files: "files w = files w' \<Longrightarrow> is_text_page env w p = is_text_page env w' p"
  by (simp add: is_text_page_def extract_text_def read_file_def)

lemma extract_text_files: "files w = files w' \<Longrightarrow> extract_text env w p n = extract_text env w' p n"
  by (simp add: extract_text_def read_file_def)

lemma extract_loop_ok:
  "map (\<lambda>p. extract_text env w p 0) paths = map Inr texts \<Longrightarrow>
   extract_loop env w paths merged_text = Inr (merged_text @ map py_strip texts)"
proof (induction paths arbitrary: merged_text texts)
  case Nil
  then show ?case by simp
next
  case (Cons p paths)
  then obtain t ts where ts: "texts = t # ts" by (cases texts) auto
  with Cons.prems have "extract_text env w p 0 = Inr t"
    "map (\<lambda>p. extract_text env w p 0) paths = map Inr ts" by simp_all
  then show ?case using Cons.IH [of ts "merged_text @ [py_strip t]"] ts by simp
qed

lemma main_finish_result:
  "main_finish merged_text w =
     (Inr (),
      py_print ''Final merged text saved to: final_smart_ocr_output.txt''
        (py_print ([CHR 0x0A] @ ''Smart OCR completed successfully!'')
           (write_file ''final_smart_ocr_output.txt'' (py_join [CHR 0x0A, CHR 0x0A] merged_text) w)))"
  by (simp add: main_finish_def Let_def)

lemma main_finish_facts:
  "\<exists>w'. main_finish merged_text w = (Inr (), w') \<and>
        files w' ''final_smart_ocr_output.txt'' = Some (py_join [CHR 0x0A, CHR 0x0A] merged_text) \<and>
        Print ([CHR 0x0A] @ ''Smart OCR completed successfully!'') \<in> set (trace w') \<and>
        set (trace w) \<subseteq> set (trace w') \<and>
        http_requests (trace w') = http_requests (trace w)"
  by (simp add: main_finish_result py_print_def write_file_def http_requests_append) auto

text \<open>
  Claim C7. When the split succeeds and every chunk is classified as text-bearing (and
  the extraction of each chunk succeeds), \<open>main\<close> returns normally, the output file holds
  the stripped texts of the chunks, in chunk order, joined by a blank line, and no request
  has been sent: the requests in the trace are those that were there before.
\<close>

theorem main_text_only:
  assumes "split_pdf env ''Chatbot Proposal V1.1.pdf'' 5 ''split_chunks''
             (py_print (''Starting smart OCR for '' @ ''Chatbot Proposal V1.1.pdf'') w)
           = (Inr chunk_files, w1)"
    and "\<forall>p\<in>set chunk_files. is_text_page env w1 p"
    and "map (\<lambda>p. extract_text env w1 p 0) chunk_files = map Inr texts"
  shows "\<exists>w'. main env w = Some (Inr (), w') \<and>
     files w' ''final_smart_ocr_output.txt'' =
       Some (py_join [CHR 0x0A, CHR 0x0A] (map py_strip texts)) \<and>
     length texts = length chunk_files \<and>
     http_requests (trace w') = http_requests (trace w)"
proof -
  define w2 where "w2 = py_print ([CHR 0x0A] @ ''Detecting text-only vs scanned chunks...'') w1"
  define w3 where "w3 = py_print (py_str_int (int (length chunk_files))
                                 @ '' chunks are text-only (no OCR needed).'') w2"
  define w4 where "w4 = py_print (py_str_int (int (length ([]::string list)))
                                 @ '' chunks will be OCR processed.'' @ [CHR 0x0A]) w3"
  have f2: "files w2 = files w1" and f4: "files w4 = files w1"
    by (simp_all add: w2_def w3_def w4_def py_print_def)
  have all: "\<forall>p\<in>set chunk_files. is_text_page env w2 p"
    using assms(2) by (simp add: is_text_page_files [OF f2])
  have cl: "classify env w2 chunk_files [] [] = (chunk_files, [])"
    using all by (simp add: classify_filter)
  have "map (\<lambda>p. extract_text env w4 p 0) chunk_files = map Inr texts"
    using assms(3) by (simp add: extract_text_files [OF f4])
  then have ex: "extract_loop env w4 chunk_files [] = Inr (map py_strip texts)"
    using extract_loop_ok [of env w4 chunk_files texts "[]"] by simp
  have ms: "main_start env w = (Inr (map py_strip texts, []), w4)"
    using assms(1) cl ex
    by (simp add: main_start_def Let_def and_then_def w2_def w3_def w4_def)
  have m: "main env w = Some (main_finish (map py_strip texts) w4)"
    by (simp add: main_def ms)
  have t4: "http_requests (trace w4) = http_requests (trace w)"
    using split_pdf_requests [OF assms(1)]
    by (simp add: w2_def w3_def w4_def py_print_def http_requests_append)
  have len: "length texts = length chunk_files"
    using assms(3) by (metis length_map)
  from main_finish_facts [of "map py_strip texts" w4] m t4 len show ?thesis by auto
qed


theorem main_text_only_witness:
  "fst (split_pdf (toy_env (scripted []) no_loads) ''Chatbot Proposal V1.1.pdf'' 5 ''split_chunks''
          (py_print (''Starting smart OCR for '' @ ''Chatbot Proposal V1.1.pdf'')
             (toy_world ''%PDFhi   yo '')))
     = Inr [chunk_path ''split_chunks'' 0, chunk_path ''split_chunks'' 1] \<and>
   (\<exists>w'. main (toy_env (scripted []) no_loads) (toy_world ''%PDFhi   yo '') = Some (Inr (), w') \<and>
      files w' ''final_smart_ocr_output.txt'' = Some (''hi'' @ [CHR 0x0A, CHR 0x0A] @ ''yo'') \<and>
      http_requests (trace w') = [])"
proof -
  let ?E = "toy_env (scripted []) no_loads"
  let ?W = "toy_world ''%PDFhi   yo ''"
  let ?w0 = "py_print (''Starting smart OCR for '' @ ''Chatbot Proposal V1.1.pdf'') ?W"
  let ?d = "''split_chunks''"
  define w1 where "w1 = snd (split_pdf ?E ''Chatbot Proposal V1.1.pdf'' 5 ?d ?w0)"
  have f0: "files ?w0 ''Chatbot Proposal V1.1.pdf'' = Some ''%PDFhi   yo ''"
    by (simp add: py_print_def toy_world_def)
  have rd: "pdf_reader ?E ''%PDFhi   yo '' = Inr ''hi   yo ''"
    by (simp add: toy_env_def)
  have k: "nat (ceil_div (int (length ''hi   yo '')) 5) = 2"
    by (simp add: ceil_div_def)
  have up: "[0..<2] = [0, Suc 0]" by (simp add: upt_rec)
  have one: "1 \<le> (5::int)" "(5::int) < 2 ^ 1075" "int (length ''hi   yo '') < 2 ^ 53" by simp_all
  have d0: "?d \<noteq> []" "files ?w0 ?d = None" by (simp_all add: py_print_def toy_world_def)
  note spr = split_pdf_result [OF one d0 f0 rd]
  have sp: "split_pdf ?E ''Chatbot Proposal V1.1.pdf'' 5 ?d ?w0
            = (Inr [chunk_path ?d 0, chunk_path ?d 1], w1)"
    unfolding w1_def spr k up by simp
  have c0: "files w1 (chunk_path ?d 0) = Some ''%PDFhi   ''"
    unfolding w1_def spr snd_conv k up
    by (simp add: py_print_def write_chunk_def write_file_def chunk_path_def os_path_join_def
        str_nat.simps digit_char_def chunk_of_def toy_env_def)
  have c1: "files w1 (chunk_path ?d 1) = Some ''%PDFyo ''"
    unfolding w1_def spr snd_conv k up
    by (simp add: py_print_def write_chunk_def write_file_def chunk_path_def os_path_join_def
        str_nat.simps digit_char_def chunk_of_def toy_env_def)
  have h2: "\<forall>p\<in>set [chunk_path ?d 0, chunk_path ?d 1]. is_text_page ?E w1 p"
    using c0 c1
    by (simp add: is_text_page_def extract_text_def read_file_def toy_env_def py_strip_def
        py_isspace_def)
  have h3: "map (\<lambda>p. extract_text ?E w1 p 0) [chunk_path ?d 0, chunk_path ?d 1]
            = map Inr [''hi   '', ''yo '']"
    using c0 c1 by (simp add: extract_text_def read_file_def toy_env_def)
  have st: "map py_strip [''hi   '', ''yo ''] = [''hi'', ''yo'']"
    by (simp add: py_strip_def py_isspace_def)
  have tr: "http_requests (trace ?W) = []" by (simp add: toy_world_def)
  from main_text_only [OF sp h2 h3] obtain w' where
    "main ?E ?W = Some (Inr (), w')"
    "files w' ''final_smart_ocr_output.txt'' =
       Some (py_join [CHR 0x0A, CHR 0x0A] (map py_strip [''hi   '', ''yo '']))"
    "http_requests (trace w') = http_requests (trace ?W)"
    by blast
  then have "\<exists>w'. main ?E ?W = Some (Inr (), w') \<and>
      files w' ''final_smart_ocr_output.txt'' = Some (''hi'' @ [CHR 0x0A, CHR 0x0A] @ ''yo'') \<and>
      http_requests (trace w') = []"
    unfolding st tr by auto
  moreover have "fst (split_pdf ?E ''Chatbot Proposal V1.1.pdf'' 5 ?d ?w0)
     = Inr [chunk_path ?d 0, chunk_path ?d 1]"
    using sp by simp
  ultimately show ?thesis by blast
qed

section \<open>The order of the uploads in a run\<close>

lemma main_start_success:
  assumes "main_start env w = (Inr (merged_text, scanned_pages), w4)"
  shows "\<exists>chunk_files w1.
     split_pdf env ''Chatbot Proposal V1.1.pdf'' 5 ''split_chunks''
       (py_print (''Starting smart OCR for '' @ ''Chatbot Proposal V1.1.pdf'') w) = (Inr chunk_files, w1) \<and>
     scanned_pages = filter (\<lambda>p. \<not> is_text_page env w1 p) chunk_files \<and>
     files w4 = files w1 \<and>
     http_requests (trace w4) = http_requests (trace w)"
proof -
  let ?w0 = "py_print (''Starting smart OCR for '' @ ''Chatbot Proposal V1.1.pdf'') w"
  obtain r w1 where sp: "split_pdf env ''Chatbot Proposal V1.1.pdf'' 5 ''split_chunks'' ?w0 = (r, w1)"
    by (cases "split_pdf env ''Chatbot Proposal V1.1.pdf'' 5 ''split_chunks'' ?w0") blast
  show ?thesis
  proof (cases r)
    case (Inl e)
    then show ?thesis using assms sp by (simp add: main_start_def Let_def and_then_def)
  next
    case (Inr chunk_files)
    note r = Inr
    define tp where "tp = filter (is_text_page env w1) chunk_files"
    define sc where "sc = filter (\<lambda>p. \<not> is_text_page env w1 p) chunk_files"
    define w2 where "w2 = py_print ([CHR 0x0A] @ ''Detecting text-only vs scanned chunks...'') w1"
    define w3 where "w3 = py_print (py_str_int (int (length tp))
                                 @ '' chunks are text-only (no OCR needed).'') w2"
    define w5 where "w5 = py_print (py_str_int (int (length sc))
                                 @ '' chunks will be OCR processed.'' @ [CHR 0x0A]) w3"
    have f2: "files w2 = files w1" by (simp add: w2_def py_print_def)
    have itp: "is_text_page env w2 = is_text_page env w1"
      using is_text_page_files [OF f2] by (intro ext)
    have cl: "classify env w2 chunk_files [] [] = (tp, sc)"
      by (simp add: classify_filter itp tp_def sc_def)
    have t: "http_requests (trace w1) = http_requests (trace w)"
      using split_pdf_requests [OF sp] by (simp add: py_print_def http_requests_append)
    have ms: "main_start env w =
        (case extract_loop env w5 tp [] of
           Inl e \<Rightarrow> (Inl e, w5)
         | Inr mt \<Rightarrow> (Inr (mt, sc), w5))"
    proof (cases "extract_loop env w5 tp []")
      case (Inl e)
      then show ?thesis using sp r cl
        by (simp add: main_start_def Let_def and_then_def w2_def w3_def w5_def)
    next
      case (Inr mt)
      then show ?thesis using sp r cl
        by (simp add: main_start_def Let_def and_then_def w2_def w3_def w5_def)
    qed
    have eq: "scanned_pages = sc" "w4 = w5"
      using assms ms by (auto split: sum.splits)
    have "files w5 = files w1" "http_requests (trace w5) = http_requests (trace w1)"
      by (simp_all add: w5_def w3_def w2_def py_print_def http_requests_append)
    then have "scanned_pages = filter (\<lambda>p. \<not> is_text_page env w1 p) chunk_files \<and>
          files w4 = files w1 \<and> http_requests (trace w4) = http_requests (trace w)"
      using eq t by (simp add: sc_def)
    then show ?thesis using sp Inr by simp
  qed
qed

lemma upload_file_response:
  assumes "upload_file env p w = (Inr fid, w')"
  shows "\<exists>bytes resp j. files w p = Some bytes \<and>
           w' = w\<lparr>trace := trace w @ [Http (upload_request env bytes)]\<rparr> \<and>
           server env (trace w) (upload_request env bytes) = Inr resp \<and>
           raise_for_status resp = Inr () \<and> resp_json resp = Inr j \<and>
           py_getitem j ''id'' = Inr fid"
proof (cases "files w p")
  case None
  then show ?thesis using assms by (simp add: upload_file_def read_file_def)
next
  case (Some bytes)
  show ?thesis
    using assms Some
    by (auto simp: upload_file_def read_file_def http_send_def and_then_def split: sum.splits)
qed

lemma upload_all_responses:
  assumes "upload_all env ps ids w = (Inr ids', w')"
  shows "\<exists>new contents. ids' = ids @ new \<and> length new = length ps \<and>
           files w' = files w \<and>
           map (files w) ps = map Some contents \<and>
           trace w' = trace w @ map (\<lambda>c. Http (upload_request env c)) contents \<and>
           (\<forall>k<length ps. \<exists>resp j.
              server env (trace w @ map (\<lambda>c. Http (upload_request env c)) (take k contents))
                (upload_request env (contents ! k)) = Inr resp \<and>
              raise_for_status resp = Inr () \<and> resp_json resp = Inr j \<and>
              py_getitem j ''id'' = Inr (new ! k))"
  using assms
proof (induction ps arbitrary: ids w)
  case Nil
  then show ?case by simp
next
  case (Cons p ps)
  from Cons.prems obtain fid w1 where
    up: "upload_file env p w = (Inr fid, w1)" and
    rest: "upload_all env ps (ids @ [fid]) w1 = (Inr ids', w')"
    by (cases "upload_file env p w" rule: prod.exhaust; cases "fst (upload_file env p w)")
       (auto simp: and_then_def)
  from upload_file_response [OF up] obtain bytes resp j where
    b: "files w p = Some bytes" "w1 = w\<lparr>trace := trace w @ [Http (upload_request env bytes)]\<rparr>"
       "server env (trace w) (upload_request env bytes) = Inr resp"
       "raise_for_status resp = Inr ()" "resp_json resp = Inr j" "py_getitem j ''id'' = Inr fid"
    by blast
  from Cons.IH [OF rest] obtain new contents where
    n: "ids' = (ids @ [fid]) @ new" "length new = length ps" "files w' = files w1"
       "map (files w1) ps = map Some contents"
       "trace w' = trace w1 @ map (\<lambda>c. Http (upload_request env c)) contents"
       "\<forall>k<length ps. \<exists>resp j.
              server env (trace w1 @ map (\<lambda>c. Http (upload_request env c)) (take k contents))
                (upload_request env (contents ! k)) = Inr resp \<and>
              raise_for_status resp = Inr () \<and> resp_json resp = Inr j \<and>
              py_getitem j ''id'' = Inr (new ! k)"
    by blast
  have f1: "files w1 = files w" and t1: "trace w1 = trace w @ [Http (upload_request env bytes)]"
    using b(2) by simp_all
  have a1: "ids' = ids @ (fid # new)" using n(1) by simp
  have a2: "length (fid # new) = length (p # ps)" using n(2) by simp
  have a3: "files w' = files w" using n(3) f1 by simp
  have a4: "map (files w) (p # ps) = map Some (bytes # contents)"
    using n(4) b(1) f1 by simp
  have a5: "trace w' = trace w @ map (\<lambda>c. Http (upload_request env c)) (bytes # contents)"
    using n(5) t1 by simp
  have a6: "\<exists>resp j.
              server env (trace w @ map (\<lambda>c. Http (upload_request env c)) (take k (bytes # contents)))
                (upload_request env ((bytes # contents) ! k)) = Inr resp \<and>
              raise_for_status resp = Inr () \<and> resp_json resp = Inr j \<and>
              py_getitem j ''id'' = Inr ((fid # new) ! k)"
    if "k < length (p # ps)" for k
  proof (cases k)
    case 0
    then show ?thesis using b(3,4,5,6) by simp
  next
    case (Suc k')
    then have "k' < length ps" using that by simp
    with n(6) show ?thesis unfolding Suc t1 by simp
  qed
  from a1 a2 a3 a4 a5 a6 show ?case by blast
qed

lemma upload_batch_file_success:
  assumes "upload_batch_file env p w = (Inr fid, w')"
  shows "\<exists>bytes. files w p = Some bytes \<and>
           w' = w\<lparr>trace := trace w @ [Http (upload_request env bytes)]\<rparr>"
proof (cases "files w p")
  case None
  then show ?thesis using assms by (simp add: upload_batch_file_def read_file_def)
next
  case (Some bytes)
  show ?thesis
    using assms Some
    by (auto simp: upload_batch_file_def read_file_def http_send_def and_then_def split: sum.splits)
qed

lemma create_batch_job_success:
  assumes "create_batch_job env b w = (Inr job_id, w')"
  shows "files w' = files w \<and>
         http_requests (trace w') = http_requests (trace w) @ [job_request env b]"
  using assms
  by (auto simp: create_batch_job_def http_send_def and_then_def py_print_def http_requests_append
      split: sum.splits)

lemma http_requests_map_Http: "http_requests (map (\<lambda>c. Http (f c)) cs) = map f cs"
  by (induction cs) simp_all

lemma ocr_submit_success:
  assumes "ocr_submit env scanned_pages w = (Inr job_id, w')"
  shows "\<exists>ids contents batch_file_id.
     length ids = length scanned_pages \<and>
     map (files w) scanned_pages = map Some contents \<and>
     files w' ''ocr_batch.ndjson'' =
       Some (concat (map (\<lambda>k. json_dumps env (ndjson_line k (ids ! k)) @ [CHR 0x0A])
                       [0..<length ids])) \<and>
     http_requests (trace w') =
       http_requests (trace w) @ map (upload_request env) contents
       @ [upload_request env
            (concat (map (\<lambda>k. json_dumps env (ndjson_line k (ids ! k)) @ [CHR 0x0A])
                       [0..<length ids])),
          job_request env batch_file_id] \<and>
     (\<forall>k<length scanned_pages. \<exists>resp j.
        server env (trace w @ Print ''Uploading scanned chunks to Mistral...''
                      # map (\<lambda>c. Http (upload_request env c)) (take k contents))
          (upload_request env (contents ! k)) = Inr resp \<and>
        raise_for_status resp = Inr () \<and> resp_json resp = Inr j \<and>
        py_getitem j ''id'' = Inr (ids ! k))"
proof -
  let ?wp = "py_print ''Uploading scanned chunks to Mistral...'' w"
  from assms obtain ids wa where
    ua: "upload_all env scanned_pages [] ?wp = (Inr ids, wa)" and
    r1: "and_then (create_ndjson env ids ''ocr_batch.ndjson'' wa)
            (\<lambda>ndjson_path w2.
               and_then (upload_batch_file env ndjson_path w2)
                 (\<lambda>batch_file_id w3. create_batch_job env batch_file_id w3)) = (Inr job_id, w')"
    by (cases "upload_all env scanned_pages [] ?wp" rule: prod.exhaust;
        cases "fst (upload_all env scanned_pages [] ?wp)")
       (auto simp: ocr_submit_def and_then_def)
  let ?manifest = "concat (map (\<lambda>k. json_dumps env (ndjson_line k (ids ! k)) @ [CHR 0x0A])
                       [0..<length ids])"
  let ?wb = "py_print (''NDJSON file created with '' @ py_str_int (int (length ids)) @ '' OCR tasks.'')
        (write_file ''ocr_batch.ndjson'' ?manifest wa)"
  have r2: "and_then (upload_batch_file env ''ocr_batch.ndjson'' ?wb)
                 (\<lambda>batch_file_id w3. create_batch_job env batch_file_id w3) = (Inr job_id, w')"
    using r1 by (simp add: create_ndjson_result and_then_def)
  then obtain batch_file_id wc where
    ub: "upload_batch_file env ''ocr_batch.ndjson'' ?wb = (Inr batch_file_id, wc)" and
    cj: "create_batch_job env batch_file_id wc = (Inr job_id, w')"
    by (cases "upload_batch_file env ''ocr_batch.ndjson'' ?wb" rule: prod.exhaust;
        cases "fst (upload_batch_file env ''ocr_batch.ndjson'' ?wb)")
       (auto simp: and_then_def)
  from upload_all_responses [OF ua] obtain contents where
    u: "length ids = length scanned_pages" "files wa = files ?wp"
       "map (files ?wp) scanned_pages = map Some contents"
       "trace wa = trace ?wp @ map (\<lambda>c. Http (upload_request env c)) contents"
       "\<forall>k<length scanned_pages. \<exists>resp j.
              server env (trace ?wp @ map (\<lambda>c. Http (upload_request env c)) (take k contents))
                (upload_request env (contents ! k)) = Inr resp \<and>
              raise_for_status resp = Inr () \<and> resp_json resp = Inr j \<and>
              py_getitem j ''id'' = Inr (ids ! k)"
    by auto
  have fb: "files ?wb ''ocr_batch.ndjson'' = Some ?manifest"
    by (simp add: py_print_def write_file_def)
  from upload_batch_file_success [OF ub] fb have
    wc: "wc = ?wb\<lparr>trace := trace ?wb @ [Http (upload_request env ?manifest)]\<rparr>"
    by auto
  from create_batch_job_success [OF cj] have
    j: "files w' = files wc"
       "http_requests (trace w') = http_requests (trace wc) @ [job_request env batch_file_id]"
    by simp_all
  have c1: "map (files w) scanned_pages = map Some contents"
    using u(3) by (simp add: py_print_def)
  have c2: "files w' ''ocr_batch.ndjson'' = Some ?manifest"
    using j(1) fb by (simp add: wc)
  have c3: "http_requests (trace w') =
       http_requests (trace w) @ map (upload_request env) contents
       @ [upload_request env ?manifest, job_request env batch_file_id]"
    using j(2) u(4)
    by (simp add: wc py_print_def write_file_def http_requests_append http_requests_map_Http)
  have c4: "\<forall>k<length scanned_pages. \<exists>resp j.
        server env (trace w @ Print ''Uploading scanned chunks to Mistral...''
                      # map (\<lambda>c. Http (upload_request env c)) (take k contents))
          (upload_request env (contents ! k)) = Inr resp \<and>
        raise_for_status resp = Inr () \<and> resp_json resp = Inr j \<and>
        py_getitem j ''id'' = Inr (ids ! k)"
    using u(5) by (simp add: py_print_def)
  from u(1) c1 c2 c3 c4 show ?thesis by blast
qed

text \<open>
  Claim C10. In a run of \<open>main\<close> that gets as far as the creation of the job, the scanned
  chunks are the chunk files that the classifier rejects, in the order of the chunk
  sequence that \<open>split_pdf\<close> returned. After the requests that were there before, \<open>main\<close>
  sends one upload per scanned chunk, in that order, each with the bytes of its chunk,
  then the upload of the manifest and the creation of the job. The \<open>k\<close>-th id is the id in
  the service's answer to the \<open>k\<close>-th of these uploads, and the \<open>k\<close>-th line of the manifest,
  the file \<^verbatim>\<open>ocr_batch.ndjson\<close>, is the record with the correlation id \<^verbatim>\<open>chunk_<k>\<close> (counted
  from 1) and that id as its input: \<^verbatim>\<open>chunk_<k>\<close> stands for the \<open>k\<close>-th scanned chunk in the
  order of the document. From there \<open>main\<close> goes on with the polling.
\<close>

theorem scanned_upload_order:
  assumes "main_start env w = (Inr (merged_text, scanned_pages), w1)"
    and "scanned_pages \<noteq> []"
    and "ocr_submit env scanned_pages w1 = (Inr job_id, w2)"
  shows "\<exists>chunk_files w0 contents ids manifest batch_file_id.
     split_pdf env ''Chatbot Proposal V1.1.pdf'' 5 ''split_chunks''
       (py_print (''Starting smart OCR for '' @ ''Chatbot Proposal V1.1.pdf'') w)
       = (Inr chunk_files, w0) \<and>
     scanned_pages = filter (\<lambda>p. \<not> is_text_page env w0 p) chunk_files \<and>
     map (files w0) scanned_pages = map Some contents \<and>
     length ids = length scanned_pages \<and>
     http_requests (trace w2) =
       http_requests (trace w)
       @ map (\<lambda>c. \<lparr>req_method = POST, req_url = API_URL @ ''/files'', req_headers = HEADERS env,
                     req_files = [(''file'', c)], req_data = [(''purpose'', ''batch'')],
                     req_body = None\<rparr>)
           (contents @ [manifest])
       @ [job_request env batch_file_id] \<and>
     (\<forall>k<length scanned_pages. \<exists>resp j.
        server env
          (trace w1 @ Print ''Uploading scanned chunks to Mistral...''
             # map (\<lambda>c. Http \<lparr>req_method = POST, req_url = API_URL @ ''/files'',
                              req_headers = HEADERS env, req_files = [(''file'', c)],
                              req_data = [(''purpose'', ''batch'')], req_body = None\<rparr>)
                 (take k contents))
          \<lparr>req_method = POST, req_url = API_URL @ ''/files'', req_headers = HEADERS env,
           req_files = [(''file'', contents ! k)], req_data = [(''purpose'', ''batch'')],
           req_body = None\<rparr> = Inr resp \<and>
        resp_json resp = Inr j \<and> py_getitem j ''id'' = Inr (ids ! k)) \<and>
     files w2 ''ocr_batch.ndjson'' = Some manifest \<and>
     manifest =
       concat (map (\<lambda>k. json_dumps env
                      (JObj [(''custom_id'', JStr (''chunk_'' @ str_nat (k + 1))),
                             (''body'', JObj [(''model'', JStr ''mistral-ocr''),
                                              (''input'', ids ! k)])])
                    @ [CHR 0x0A])
                 [0..<length scanned_pages]) \<and>
     main env w =
       (case wait_for_job env job_id 15 w2 of
          None \<Rightarrow> None
        | Some (Inl e, w3) \<Rightarrow> Some (Inl e, w3)
        | Some (Inr job_info, w3) \<Rightarrow>
            Some (and_then (ocr_collect env merged_text job_info w3) main_finish))"
proof -
  from main_start_success [OF assms(1)] obtain chunk_files w0 where
    s: "split_pdf env ''Chatbot Proposal V1.1.pdf'' 5 ''split_chunks''
          (py_print (''Starting smart OCR for '' @ ''Chatbot Proposal V1.1.pdf'') w)
          = (Inr chunk_files, w0)"
       "scanned_pages = filter (\<lambda>p. \<not> is_text_page env w0 p) chunk_files"
       "files w1 = files w0" "http_requests (trace w1) = http_requests (trace w)"
    by blast
  from ocr_submit_success [OF assms(3)] obtain ids contents batch_file_id where
    o: "length ids = length scanned_pages"
       "map (files w1) scanned_pages = map Some contents"
       "files w2 ''ocr_batch.ndjson'' =
          Some (concat (map (\<lambda>k. json_dumps env (ndjson_line k (ids ! k)) @ [CHR 0x0A])
                       [0..<length ids]))"
       "http_requests (trace w2) =
          http_requests (trace w1) @ map (upload_request env) contents
          @ [upload_request env
               (concat (map (\<lambda>k. json_dumps env (ndjson_line k (ids ! k)) @ [CHR 0x0A])
                          [0..<length ids])),
             job_request env batch_file_id]"
       "\<forall>k<length scanned_pages. \<exists>resp j.
          server env (trace w1 @ Print ''Uploading scanned chunks to Mistral...''
                        # map (\<lambda>c. Http (upload_request env c)) (take k contents))
            (upload_request env (contents ! k)) = Inr resp \<and>
          raise_for_status resp = Inr () \<and> resp_json resp = Inr j \<and>
          py_getitem j ''id'' = Inr (ids ! k)"
    by blast
  define manifest where "manifest =
       concat (map (\<lambda>k. json_dumps env (ndjson_line k (ids ! k)) @ [CHR 0x0A]) [0..<length ids])"
  have m: "main env w =
       (case wait_for_job env job_id 15 w2 of
          None \<Rightarrow> None
        | Some (Inl e, w3) \<Rightarrow> Some (Inl e, w3)
        | Some (Inr job_info, w3) \<Rightarrow>
            Some (and_then (ocr_collect env merged_text job_info w3) main_finish))"
    using assms by (simp add: main_def)
  have c3: "map (files w0) scanned_pages = map Some contents" using o(2) s(3) by simp
  have c5: "http_requests (trace w2) =
       http_requests (trace w)
       @ map (\<lambda>c. \<lparr>req_method = POST, req_url = API_URL @ ''/files'', req_headers = HEADERS env,
                     req_files = [(''file'', c)], req_data = [(''purpose'', ''batch'')],
                     req_body = None\<rparr>)
           (contents @ [manifest])
       @ [job_request env batch_file_id]"
    using o(4) s(4) by (simp add: manifest_def upload_request_def)
  have c6: "\<forall>k<length scanned_pages. \<exists>resp j.
        server env
          (trace w1 @ Print ''Uploading scanned chunks to Mistral...''
             # map (\<lambda>c. Http \<lparr>req_method = POST, req_url = API_URL @ ''/files'',
                              req_headers = HEADERS env, req_files = [(''file'', c)],
                              req_data = [(''purpose'', ''batch'')], req_body = None\<rparr>)
                 (take k contents))
          \<lparr>req_method = POST, req_url = API_URL @ ''/files'', req_headers = HEADERS env,
           req_files = [(''file'', contents ! k)], req_data = [(''purpose'', ''batch'')],
           req_body = None\<rparr> = Inr resp \<and>
        resp_json resp = Inr j \<and> py_getitem j ''id'' = Inr (ids ! k)"
    using o(5) unfolding upload_request_def by blast
  have c7: "files w2 ''ocr_batch.ndjson'' = Some manifest" using o(3) by (simp add: manifest_def)
  have c8: "manifest =
       concat (map (\<lambda>k. json_dumps env
                      (JObj [(''custom_id'', JStr (''chunk_'' @ str_nat (k + 1))),
                             (''body'', JObj [(''model'', JStr ''mistral-ocr''),
                                              (''input'', ids ! k)])])
                    @ [CHR 0x0A])
                 [0..<length scanned_pages])"
    by (simp add: manifest_def ndjson_line_def o(1))
  from s(1,2) c3 o(1) c5 c6 c7 c8 m show ?thesis by blast
qed

theorem scanned_upload_order_witness:
  "fst (main_start (toy_env (scripted four_answers) no_loads) (toy_world ''%PDFab cd      z''))
     = Inr ([''ab cd''], [chunk_path ''split_chunks'' 1, chunk_path ''split_chunks'' 2]) \<and>
   [chunk_path ''split_chunks'' 1, chunk_path ''split_chunks'' 2] \<noteq> [] \<and>
   fst (ocr_submit (toy_env (scripted four_answers) no_loads)
          [chunk_path ''split_chunks'' 1, chunk_path ''split_chunks'' 2]
          (snd (main_start (toy_env (scripted four_answers) no_loads)
                  (toy_world ''%PDFab cd      z''))))
     = Inr (JStr ''j1'') \<and>
   take 2 (map req_files (http_requests (trace
     (snd (ocr_submit (toy_env (scripted four_answers) no_loads)
            [chunk_path ''split_chunks'' 1, chunk_path ''split_chunks'' 2]
            (snd (main_start (toy_env (scripted four_answers) no_loads)
                    (toy_world ''%PDFab cd      z''))))))))
     = [[(''file'', ''%PDF     '')], [(''file'', ''%PDF z'')]]"
proof -
  let ?E = "toy_env (scripted four_answers) no_loads"
  let ?W = "toy_world ''%PDFab cd      z''"
  let ?w0 = "py_print (''Starting smart OCR for '' @ ''Chatbot Proposal V1.1.pdf'') ?W"
  let ?d = "''split_chunks''"
  define ws where "ws = snd (split_pdf ?E ''Chatbot Proposal V1.1.pdf'' 5 ?d ?w0)"
  define w1 where "w1 = snd (main_start ?E ?W)"
  define w2 where "w2 = snd (ocr_submit ?E [chunk_path ?d 1, chunk_path ?d 2] w1)"
  have f0: "files ?w0 ''Chatbot Proposal V1.1.pdf'' = Some ''%PDFab cd      z''"
    by (simp add: py_print_def toy_world_def)
  have rd: "pdf_reader ?E ''%PDFab cd      z'' = Inr ''ab cd      z''"
    by (simp add: toy_env_def)
  have k: "nat (ceil_div (int (length ''ab cd      z'')) 5) = 3"
    by (simp add: ceil_div_def)
  have up: "[0..<3] = [0, Suc 0, 2]" by (simp add: upt_rec)
  have one: "1 \<le> (5::int)" "(5::int) < 2 ^ 1075" "int (length ''ab cd      z'') < 2 ^ 53"
    by simp_all
  have d0: "?d \<noteq> []" "files ?w0 ?d = None" by (simp_all add: py_print_def toy_world_def)
  note spr = split_pdf_result [OF one d0 f0 rd]
  have sp: "split_pdf ?E ''Chatbot Proposal V1.1.pdf'' 5 ?d ?w0
            = (Inr [chunk_path ?d 0, chunk_path ?d 1, chunk_path ?d 2], ws)"
    unfolding ws_def spr k up by simp
  have c0: "files ws (chunk_path ?d 0) = Some ''%PDFab cd''"
    unfolding ws_def spr snd_conv k up
    by (simp add: py_print_def write_chunk_def write_file_def chunk_path_def os_path_join_def
        str_nat.simps digit_char_def chunk_of_def toy_env_def)
  have c1: "files ws (chunk_path ?d 1) = Some ''%PDF     ''"
    unfolding ws_def spr snd_conv k up
    by (simp add: py_print_def write_chunk_def write_file_def chunk_path_def os_path_join_def
        str_nat.simps digit_char_def chunk_of_def toy_env_def)
  have c2: "files ws (chunk_path ?d 2) = Some ''%PDF z''"
    unfolding ws_def spr snd_conv k up
    by (simp add: py_print_def write_chunk_def write_file_def chunk_path_def os_path_join_def
        str_nat.simps digit_char_def chunk_of_def toy_env_def)
  have t0: "is_text_page ?E ws (chunk_path ?d 0)"
    and t1: "\<not> is_text_page ?E ws (chunk_path ?d 1)"
    and t2: "\<not> is_text_page ?E ws (chunk_path ?d 2)"
    using c0 c1 c2
    by (simp_all add: is_text_page_def extract_text_def read_file_def toy_env_def py_strip_def
        py_isspace_def)
  have h1: "fst (main_start ?E ?W) = Inr ([''ab cd''], [chunk_path ?d 1, chunk_path ?d 2])"
    unfolding main_start_def Let_def sp and_then_def
    using c0 c1 c2
    by (simp add: is_text_page_def extract_text_def read_file_def py_print_def toy_env_def
        py_strip_def py_isspace_def)
  have m1: "main_start ?E ?W = (Inr ([''ab cd''], [chunk_path ?d 1, chunk_path ?d 2]), w1)"
    using h1 by (simp add: w1_def prod_eq_iff)
  from main_start_success [OF m1] sp have
    fw: "files w1 = files ws" and tw: "http_requests (trace w1) = []"
    by (auto simp: toy_world_def)
  have h2: "[chunk_path ?d 1, chunk_path ?d 2] \<noteq> []" by simp
  have h3: "fst (ocr_submit ?E [chunk_path ?d 1, chunk_path ?d 2] w1) = Inr (JStr ''j1'')"
    using c1 c2
    by (simp add: ocr_submit_def upload_file_def read_file_def py_print_def http_send_def
        and_then_def fw tw http_requests_append scripted_def four_answers_def json_response_def
        raise_for_status_def create_ndjson_def write_file_def upload_batch_file_def
        create_batch_job_def Let_def toy_env_def)
  have m3: "ocr_submit ?E [chunk_path ?d 1, chunk_path ?d 2] w1 = (Inr (JStr ''j1''), w2)"
    using h3 by (simp add: w2_def prod_eq_iff)
  from scanned_upload_order [OF m1 h2 m3] obtain chunk_files w0 contents ids manifest batch_file_id
    where
      r: "split_pdf ?E ''Chatbot Proposal V1.1.pdf'' 5 ?d ?w0 = (Inr chunk_files, w0)"
         "map (files w0) [chunk_path ?d 1, chunk_path ?d 2] = map Some contents"
         "http_requests (trace w2) =
            http_requests (trace ?W)
            @ map (\<lambda>c. \<lparr>req_method = POST, req_url = API_URL @ ''/files'',
                          req_headers = HEADERS ?E, req_files = [(''file'', c)],
                          req_data = [(''purpose'', ''batch'')], req_body = None\<rparr>)
                (contents @ [manifest])
            @ [job_request ?E batch_file_id]"
    by blast
  have "w0 = ws" using r(1) sp by simp
  then have "map Some contents = [Some ''%PDF     '', Some ''%PDF z'']"
    using r(2) c1 c2 by simp
  then have "contents = [''%PDF     '', ''%PDF z'']" by auto
  then have "take 2 (map req_files (http_requests (trace w2)))
      = [[(''file'', ''%PDF     '')], [(''file'', ''%PDF z'')]]"
    using r(3) by (simp add: toy_world_def)
  then show ?thesis using h1 h2 h3 unfolding w2_def w1_def by simp
qed

section \<open>Polling\<close>

lemma poll_answer_Some:
  "poll_answer env job_id tr = Some (data, status) \<longleftrightarrow>
   (\<exists>resp. server env tr (poll_request env job_id) = Inr resp \<and> resp_json resp = Inr data \<and>
           py_getitem data ''status'' = Inr status)"
  by (auto simp: poll_answer_def split: sum.splits)

lemma poll_step_terminal:
  assumes "poll_answer env job_id (trace w) = Some (data, status)"
    and "status \<in> set terminal_statuses"
  shows "poll_loop env job_id interval w =
     Some (Inr data, w\<lparr>trace := trace w @ [Http (poll_request env job_id),
                                             Print (status_line env status)]\<rparr>)"
proof -
  from assms(1) obtain resp where
    r: "server env (trace w) (poll_request env job_id) = Inr resp" "resp_json resp = Inr data"
       "py_getitem data ''status'' = Inr status"
    by (auto simp: poll_answer_Some)
  show ?thesis
    using r assms(2) by (subst poll_loop.simps) (simp add: http_send_def py_print_def)
qed

lemma poll_step_continue:
  assumes "poll_answer env job_id (trace w) = Some (data, status)"
    and "status \<notin> set terminal_statuses" and "0 \<le> interval"
  shows "poll_loop env job_id interval w =
     poll_loop env job_id interval
       (w\<lparr>trace := trace w @ [Http (poll_request env job_id), Print (status_line env status),
                              Sleep interval]\<rparr>)"
proof -
  from assms(1) obtain resp where
    r: "server env (trace w) (poll_request env job_id) = Inr resp" "resp_json resp = Inr data"
       "py_getitem data ''status'' = Inr status"
    by (auto simp: poll_answer_Some)
  show ?thesis
    using r assms(2,3) by (subst poll_loop.simps) (simp add: http_send_def py_sleep_def py_print_def)
qed

lemma poll_step_raises:
  assumes "poll_answer env job_id (trace w) = None"
  shows "\<exists>e w'. poll_loop env job_id interval w = Some (Inl e, w')"
  using assms
  by (subst poll_loop.simps) (auto simp: poll_answer_def http_send_def split: sum.splits)

lemma poll_events_Cons:
  "poll_events env job_id interval (s # sts) =
     [Http (poll_request env job_id), Print (status_line env s), Sleep interval]
     @ poll_events env job_id interval sts"
  by (simp add: poll_events_def)

lemma poll_loop_run:
  assumes "0 \<le> interval"
    and "\<forall>s\<in>set sts. s \<notin> set terminal_statuses"
    and "\<forall>k<length sts.
           map_option snd (poll_answer env job_id (trace w @ poll_events env job_id interval (take k sts)))
             = Some (sts ! k)"
    and "poll_answer env job_id (trace w @ poll_events env job_id interval sts) = Some (data, status)"
    and "status \<in> set terminal_statuses"
  shows "poll_loop env job_id interval w =
     Some (Inr data, w\<lparr>trace := trace w @ poll_events env job_id interval sts
                                  @ [Http (poll_request env job_id), Print (status_line env status)]\<rparr>)"
  using assms(2,3,4)
proof (induction sts arbitrary: w)
  case Nil
  then have "poll_answer env job_id (trace w) = Some (data, status)"
    by (simp add: poll_events_def)
  from poll_step_terminal [OF this assms(5)] show ?case by (simp add: poll_events_def)
next
  case (Cons s sts)
  let ?w1 = "w\<lparr>trace := trace w @ [Http (poll_request env job_id), Print (status_line env s),
                              Sleep interval]\<rparr>"
  from Cons.prems(2) have "map_option snd (poll_answer env job_id (trace w @ poll_events env job_id interval (take 0 (s # sts)))) = Some ((s # sts) ! 0)"
    by blast
  then obtain d0 where a0: "poll_answer env job_id (trace w) = Some (d0, s)"
    by (auto simp: poll_events_def)
  have s: "s \<notin> set terminal_statuses" using Cons.prems(1) by simp
  have st: "poll_loop env job_id interval w = poll_loop env job_id interval ?w1"
    using a0 s assms(1) by (rule poll_step_continue)
  have p1: "\<forall>s\<in>set sts. s \<notin> set terminal_statuses" using Cons.prems(1) by simp
  have p2: "\<forall>k<length sts.
           map_option snd (poll_answer env job_id (trace ?w1 @ poll_events env job_id interval (take k sts)))
             = Some (sts ! k)"
  proof (intro allI impI)
    fix k assume "k < length sts"
    then have "Suc k < length (s # sts)" by simp
    with Cons.prems(2) have "map_option snd (poll_answer env job_id
        (trace w @ poll_events env job_id interval (take (Suc k) (s # sts)))) = Some ((s # sts) ! Suc k)"
      by blast
    then show "map_option snd (poll_answer env job_id (trace ?w1 @ poll_events env job_id interval (take k sts)))
             = Some (sts ! k)"
      by (simp add: poll_events_Cons)
  qed
  have p3: "poll_answer env job_id (trace ?w1 @ poll_events env job_id interval sts) = Some (data, status)"
    using Cons.prems(3) by (simp add: poll_events_Cons)
  from Cons.IH [OF p1 p2 p3] show ?case
    unfolding st by (simp add: poll_events_Cons)
qed

lemma polled_Cons:
  assumes "poll_answer env job_id tr = Some (d0, s)" "s \<notin> set terminal_statuses"
    and "polled env job_id interval
           (tr @ [Http (poll_request env job_id), Print (status_line env s), Sleep interval])
           sts data status"
  shows "polled env job_id interval tr (s # sts) data status"
proof -
  have "map_option snd (poll_answer env job_id (tr @ poll_events env job_id interval (take k (s # sts))))
          = Some ((s # sts) ! k)" if "k < length (s # sts)" for k
  proof (cases k)
    case 0
    then show ?thesis using assms(1) by (simp add: poll_events_def)
  next
    case (Suc k')
    then have "k' < length sts" using that by simp
    then show ?thesis using assms(3) unfolding Suc by (simp add: polled_def poll_events_Cons)
  qed
  then show ?thesis using assms by (simp add: polled_def poll_events_Cons)
qed

lemma poll_loop_returned:
  assumes run: "poll_loop env job_id interval w = Some y"
  shows "\<forall>data w'. y = (Inr data, w') \<longrightarrow>
     (\<exists>sts status. polled env job_id interval (trace w) sts data status \<and>
        w' = w\<lparr>trace := trace w @ poll_events env job_id interval sts
                          @ [Http (poll_request env job_id), Print (status_line env status)]\<rparr>)"
proof (rule poll_loop.raw_induct [where P = "\<lambda>env job_id interval w y.
     \<forall>data w'. y = (Inr data, w') \<longrightarrow>
     (\<exists>sts status. polled env job_id interval (trace w) sts data status \<and>
        w' = w\<lparr>trace := trace w @ poll_events env job_id interval sts
                          @ [Http (poll_request env job_id), Print (status_line env status)]\<rparr>)", OF _ run])
  fix f :: "'a env \<Rightarrow> json \<Rightarrow> int \<Rightarrow> world \<Rightarrow> ((exn + json) \<times> world) option"
  fix env job_id interval w y
  assume IH: "\<And>env job_id interval w y. f env job_id interval w = Some y \<Longrightarrow>
     \<forall>data w'. y = (Inr data, w') \<longrightarrow>
     (\<exists>sts status. polled env job_id interval (trace w) sts data status \<and>
        w' = w\<lparr>trace := trace w @ poll_events env job_id interval sts
                          @ [Http (poll_request env job_id), Print (status_line env status)]\<rparr>)"
  assume step: "(case http_send env (poll_request env job_id) w of
        (Inl e, w1) \<Rightarrow> Some (Inl e, w1)
      | (Inr resp, w1) \<Rightarrow>
          (case resp_json resp of
             Inl e \<Rightarrow> Some (Inl e, w1)
           | Inr data \<Rightarrow>
               (case py_getitem data ''status'' of
                  Inl e \<Rightarrow> Some (Inl e, w1)
                | Inr status \<Rightarrow>
                    (if status \<in> set terminal_statuses
                     then Some (Inr data, py_print (status_line env status) w1)
                     else
                       (case py_sleep interval (py_print (status_line env status) w1) of
                          (Inl e, w3) \<Rightarrow> Some (Inl e, w3)
                        | (Inr _, w3) \<Rightarrow> f env job_id interval w3))))) = Some y"
  show "\<forall>data w'. y = (Inr data, w') \<longrightarrow>
     (\<exists>sts status. polled env job_id interval (trace w) sts data status \<and>
        w' = w\<lparr>trace := trace w @ poll_events env job_id interval sts
                          @ [Http (poll_request env job_id), Print (status_line env status)]\<rparr>)"
  proof (intro allI impI)
    fix data w' assume y: "y = (Inr data, w')"
    show "\<exists>sts status. polled env job_id interval (trace w) sts data status \<and>
        w' = w\<lparr>trace := trace w @ poll_events env job_id interval sts
                          @ [Http (poll_request env job_id), Print (status_line env status)]\<rparr>"
    proof (cases "poll_answer env job_id (trace w)")
      case None
      then show ?thesis using step y
        by (auto simp: poll_answer_def http_send_def split: sum.splits)
    next
      case (Some a)
      obtain d0 s where a: "a = (d0, s)" by (cases a)
      from Some a obtain resp where
        r: "server env (trace w) (poll_request env job_id) = Inr resp" "resp_json resp = Inr d0"
           "py_getitem d0 ''status'' = Inr s"
        by (auto simp: poll_answer_Some)
      show ?thesis
      proof (cases "s \<in> set terminal_statuses")
        case True
        then have "data = d0" "w' = w\<lparr>trace := trace w @ [Http (poll_request env job_id),
                                             Print (status_line env s)]\<rparr>"
          using step y r by (simp_all add: http_send_def py_print_def)
        moreover have "polled env job_id interval (trace w) [] d0 s"
          using Some a True by (simp add: polled_def poll_events_def)
        ultimately show ?thesis
          by (intro exI [of _ "[]"] exI [of _ s]) (simp add: poll_events_def)
      next
        case False
        let ?w3 = "w\<lparr>trace := trace w @ [Http (poll_request env job_id), Print (status_line env s),
                              Sleep interval]\<rparr>"
        have i: "0 \<le> interval"
          using step y r False by (auto simp: http_send_def py_sleep_def py_print_def split: if_splits)
        then have "f env job_id interval ?w3 = Some y"
          using step r False by (simp add: http_send_def py_sleep_def py_print_def)
        from IH [OF this] y obtain sts status where
          p: "polled env job_id interval (trace ?w3) sts data status"
             "w' = ?w3\<lparr>trace := trace ?w3 @ poll_events env job_id interval sts
                          @ [Http (poll_request env job_id), Print (status_line env status)]\<rparr>"
          by blast
        have "polled env job_id interval (trace w) (s # sts) data status"
          using Some a False p(1) by (intro polled_Cons [where ?d0.0 = d0]) simp_all
        moreover have "w' = w\<lparr>trace := trace w @ poll_events env job_id interval (s # sts)
                          @ [Http (poll_request env job_id), Print (status_line env status)]\<rparr>"
          using p(2) by (simp add: poll_events_Cons)
        ultimately show ?thesis by blast
      qed
    qed
  qed
qed

lemma poll_loop_forever:
  assumes "0 \<le> interval"
    and "\<forall>tr. \<exists>data status. poll_answer env job_id tr = Some (data, status) \<and>
                             status \<notin> set terminal_statuses"
  shows "poll_loop env job_id interval w = None"
proof (rule ccontr)
  assume "poll_loop env job_id interval w \<noteq> None"
  then obtain y where run: "poll_loop env job_id interval w = Some y" by auto
  have "\<not> (0 \<le> interval \<and> (\<forall>tr. \<exists>data status. poll_answer env job_id tr = Some (data, status) \<and>
                             status \<notin> set terminal_statuses))"
  proof (rule poll_loop.raw_induct [where P = "\<lambda>env job_id interval w y.
       \<not> (0 \<le> interval \<and> (\<forall>tr. \<exists>data status. poll_answer env job_id tr = Some (data, status) \<and>
                             status \<notin> set terminal_statuses))", OF _ run])
    fix f :: "'a env \<Rightarrow> json \<Rightarrow> int \<Rightarrow> world \<Rightarrow> ((exn + json) \<times> world) option"
    fix env job_id interval w y
    assume IH: "\<And>env job_id interval w y. f env job_id interval w = Some y \<Longrightarrow>
       \<not> (0 \<le> interval \<and> (\<forall>tr. \<exists>data status. poll_answer env job_id tr = Some (data, status) \<and>
                             status \<notin> set terminal_statuses))"
    assume step: "(case http_send env (poll_request env job_id) w of
        (Inl e, w1) \<Rightarrow> Some (Inl e, w1)
      | (Inr resp, w1) \<Rightarrow>
          (case resp_json resp of
             Inl e \<Rightarrow> Some (Inl e, w1)
           | Inr data \<Rightarrow>
               (case py_getitem data ''status'' of
                  Inl e \<Rightarrow> Some (Inl e, w1)
                | Inr status \<Rightarrow>
                    (if status \<in> set terminal_statuses
                     then Some (Inr data, py_print (status_line env status) w1)
                     else
                       (case py_sleep interval (py_print (status_line env status) w1) of
                          (Inl e, w3) \<Rightarrow> Some (Inl e, w3)
                        | (Inr _, w3) \<Rightarrow> f env job_id interval w3))))) = Some y"
    show "\<not> (0 \<le> interval \<and> (\<forall>tr. \<exists>data status. poll_answer env job_id tr = Some (data, status) \<and>
                             status \<notin> set terminal_statuses))"
    proof
      assume h: "0 \<le> interval \<and> (\<forall>tr. \<exists>data status. poll_answer env job_id tr = Some (data, status) \<and>
                             status \<notin> set terminal_statuses)"
      then obtain d0 s where a: "poll_answer env job_id (trace w) = Some (d0, s)"
        "s \<notin> set terminal_statuses" by blast
      from a(1) obtain resp where
        r: "server env (trace w) (poll_request env job_id) = Inr resp" "resp_json resp = Inr d0"
           "py_getitem d0 ''status'' = Inr s"
        by (auto simp: poll_answer_Some)
      let ?w3 = "w\<lparr>trace := trace w @ [Http (poll_request env job_id), Print (status_line env s),
                              Sleep interval]\<rparr>"
      have "f env job_id interval ?w3 = Some y"
        using step r a(2) h by (simp add: http_send_def py_sleep_def py_print_def)
      from IH [OF this] h show False by blast
    qed
  qed
  with assms show False by blast
qed

text \<open>
  Claim C6. For an interval that is not negative, \<open>wait_for_job\<close> returns a job object
  exactly when there are polls that saw statuses outside the terminal set, one after the
  other, and then a poll whose answer is that object with a status in the terminal set
  (\<^verbatim>\<open>completed\<close>, \<^verbatim>\<open>failed\<close>, \<^verbatim>\<open>cancelled\<close>): it does not return before, each poll that did not end
  the loop is followed by one sleep of the interval, and nothing else is sent. There is no
  bound: when every poll is answered with a status outside the terminal set,
  \<open>wait_for_job\<close> never returns.
\<close>

theorem wait_for_job_polling:
  assumes "0 \<le> interval"
  shows "(wait_for_job env job_id interval w = Some (Inr data, w') \<longleftrightarrow>
           (\<exists>sts status.
              polled env job_id interval
                (trace w @ [Print ''Waiting for OCR batch job to complete...'']) sts data status \<and>
              w' = w\<lparr>trace := trace w @ [Print ''Waiting for OCR batch job to complete...'']
                                @ poll_events env job_id interval sts
                                @ [Http (poll_request env job_id), Print (status_line env status)]\<rparr>)) \<and>
         ((\<forall>tr. \<exists>data status. poll_answer env' job_id' tr = Some (data, status) \<and>
                                status \<notin> set terminal_statuses) \<longrightarrow>
            wait_for_job env' job_id' interval w'' = None)"
proof (intro conjI iffI impI)
  let ?w0 = "py_print ''Waiting for OCR batch job to complete...'' w"
  assume "wait_for_job env job_id interval w = Some (Inr data, w')"
  then have "poll_loop env job_id interval ?w0 = Some (Inr data, w')"
    by (simp add: wait_for_job_def)
  from poll_loop_returned [OF this] obtain sts status where
    "polled env job_id interval (trace ?w0) sts data status"
    "w' = ?w0\<lparr>trace := trace ?w0 @ poll_events env job_id interval sts
                          @ [Http (poll_request env job_id), Print (status_line env status)]\<rparr>"
    by blast
  then show "\<exists>sts status.
              polled env job_id interval
                (trace w @ [Print ''Waiting for OCR batch job to complete...'']) sts data status \<and>
              w' = w\<lparr>trace := trace w @ [Print ''Waiting for OCR batch job to complete...'']
                                @ poll_events env job_id interval sts
                                @ [Http (poll_request env job_id), Print (status_line env status)]\<rparr>"
    by (auto simp: py_print_def)
next
  let ?w0 = "py_print ''Waiting for OCR batch job to complete...'' w"
  assume "\<exists>sts status.
              polled env job_id interval
                (trace w @ [Print ''Waiting for OCR batch job to complete...'']) sts data status \<and>
              w' = w\<lparr>trace := trace w @ [Print ''Waiting for OCR batch job to complete...'']
                                @ poll_events env job_id interval sts
                                @ [Http (poll_request env job_id), Print (status_line env status)]\<rparr>"
  then obtain sts status where
    p: "polled env job_id interval (trace ?w0) sts data status"
    and w': "w' = w\<lparr>trace := trace w @ [Print ''Waiting for OCR batch job to complete...'']
                                @ poll_events env job_id interval sts
                                @ [Http (poll_request env job_id), Print (status_line env status)]\<rparr>"
    by (auto simp: py_print_def)
  have "poll_loop env job_id interval ?w0 =
     Some (Inr data, ?w0\<lparr>trace := trace ?w0 @ poll_events env job_id interval sts
                                  @ [Http (poll_request env job_id), Print (status_line env status)]\<rparr>)"
    using p by (intro poll_loop_run [OF assms]) (simp_all add: polled_def)
  then show "wait_for_job env job_id interval w = Some (Inr data, w')"
    by (simp add: wait_for_job_def w' py_print_def)
next
  assume "\<forall>tr. \<exists>data status. poll_answer env' job_id' tr = Some (data, status) \<and>
                                status \<notin> set terminal_statuses"
  then show "wait_for_job env' job_id' interval w'' = None"
    unfolding wait_for_job_def by (rule poll_loop_forever [OF assms])
qed

theorem wait_for_job_polling_witness:
  "0 \<le> (15::int) \<and>
   polled (toy_env (scripted [Inr (json_response 200 running_job),
                              Inr (json_response 200 completed_job)]) no_loads)
     (JStr ''j1'') 15 [Print ''Waiting for OCR batch job to complete...'']
     [JStr ''running''] completed_job (JStr ''completed'') \<and>
   wait_for_job (toy_env (scripted [Inr (json_response 200 running_job),
                                    Inr (json_response 200 completed_job)]) no_loads)
     (JStr ''j1'') 15 (toy_world ''%PDF'')
     = Some (Inr completed_job,
             (toy_world ''%PDF'')\<lparr>trace :=
                [Print ''Waiting for OCR batch job to complete...'',
                 Http (get_request (toy_env (scripted [Inr (json_response 200 running_job),
                                    Inr (json_response 200 completed_job)]) no_loads)
                         (API_URL @ ''/batch/jobs/j1'')),
                 Print (status_line (toy_env (scripted [Inr (json_response 200 running_job),
                                    Inr (json_response 200 completed_job)]) no_loads) (JStr ''running'')),
                 Sleep 15,
                 Http (get_request (toy_env (scripted [Inr (json_response 200 running_job),
                                    Inr (json_response 200 completed_job)]) no_loads)
                         (API_URL @ ''/batch/jobs/j1'')),
                 Print (status_line (toy_env (scripted [Inr (json_response 200 running_job),
                                    Inr (json_response 200 completed_job)]) no_loads) (JStr ''completed''))]\<rparr>) \<and>
   (\<forall>tr. \<exists>data status.
      poll_answer (toy_env always_running no_loads) (JStr ''j1'') tr = Some (data, status) \<and>
      status \<notin> set terminal_statuses) \<and>
   wait_for_job (toy_env always_running no_loads) (JStr ''j1'') 15 (toy_world ''%PDF'') = None"
proof -
  let ?E = "toy_env (scripted [Inr (json_response 200 running_job),
                              Inr (json_response 200 completed_job)]) no_loads"
  let ?F = "toy_env always_running no_loads"
  have i: "0 \<le> (15::int)" by simp
  have pr: "poll_request ?E (JStr ''j1'') = get_request ?E (API_URL @ ''/batch/jobs/j1'')"
    by (simp add: poll_request_def toy_env_def)
  have p: "polled ?E (JStr ''j1'') 15 [Print ''Waiting for OCR batch job to complete...'']
     [JStr ''running''] completed_job (JStr ''completed'')"
    by (simp add: polled_def poll_answer_def poll_events_def scripted_def toy_env_def
        json_response_def running_job_def completed_job_def terminal_statuses_def)
  have a: "\<forall>tr. \<exists>data status.
      poll_answer ?F (JStr ''j1'') tr = Some (data, status) \<and> status \<notin> set terminal_statuses"
    by (simp add: poll_answer_def always_running_def toy_env_def json_response_def running_job_def
        terminal_statuses_def)
  note t = wait_for_job_polling [OF i, of ?E "JStr ''j1''" "toy_world ''%PDF''" completed_job _
      ?F "JStr ''j1''" "toy_world ''%PDF''"]
  have n: "wait_for_job ?F (JStr ''j1'') 15 (toy_world ''%PDF'') = None"
    using t a by blast
  have r: "wait_for_job ?E (JStr ''j1'') 15 (toy_world ''%PDF'')
     = Some (Inr completed_job,
             (toy_world ''%PDF'')\<lparr>trace := trace (toy_world ''%PDF'')
                @ [Print ''Waiting for OCR batch job to complete...'']
                @ poll_events ?E (JStr ''j1'') 15 [JStr ''running'']
                @ [Http (poll_request ?E (JStr ''j1'')), Print (status_line ?E (JStr ''completed''))]\<rparr>)"
    using t p by (auto simp: toy_world_def)
  have r': "wait_for_job ?E (JStr ''j1'') 15 (toy_world ''%PDF'')
     = Some (Inr completed_job,
             (toy_world ''%PDF'')\<lparr>trace :=
                [Print ''Waiting for OCR batch job to complete...'',
                 Http (get_request ?E (API_URL @ ''/batch/jobs/j1'')),
                 Print (status_line ?E (JStr ''running'')),
                 Sleep 15,
                 Http (get_request ?E (API_URL @ ''/batch/jobs/j1'')),
                 Print (status_line ?E (JStr ''completed''))]\<rparr>)"
    unfolding r pr poll_events_def by (simp add: toy_world_def)
  show ?thesis using i p r' a n by blast
qed

text \<open>
  Claim C3 does not hold of the code for the status fetch. \<open>upload_file\<close> and
  \<open>create_batch_job\<close> call \<^verbatim>\<open>raise_for_status()\<close> on the response and raise on the answer 503;
  \<open>wait_for_job\<close> does not call it. When a status fetch is answered 503 with a JSON body
  that has a \<^verbatim>\<open>status\<close> field, the run is not aborted: the loop sleeps and polls again, and
  returns the job object of the next answer.
\<close>

theorem wait_for_job_http_error:
  "raise_for_status (json_response 503 unavailable) = Inl (HTTPError 503) \<and>
   fst (create_batch_job (toy_env (scripted [Inr (json_response 503 unavailable)]) no_loads)
          (JStr ''m1'') (toy_world ''%PDF'')) = Inl (HTTPError 503) \<and>
   fst (upload_file (toy_env (scripted [Inr (json_response 503 unavailable)]) no_loads)
          ''Chatbot Proposal V1.1.pdf'' (toy_world ''%PDF'')) = Inl (HTTPError 503) \<and>
   wait_for_job (toy_env (scripted [Inr (json_response 503 unavailable),
                                    Inr (json_response 200 completed_job)]) no_loads)
     (JStr ''j1'') 15 (toy_world ''%PDF'')
     = Some (Inr completed_job,
             (toy_world ''%PDF'')\<lparr>trace :=
                [Print ''Waiting for OCR batch job to complete...'',
                 Http (get_request (toy_env (scripted [Inr (json_response 503 unavailable),
                                    Inr (json_response 200 completed_job)]) no_loads)
                         (API_URL @ ''/batch/jobs/j1'')),
                 Print (status_line (toy_env (scripted [Inr (json_response 503 unavailable),
                                    Inr (json_response 200 completed_job)]) no_loads) (JStr ''unavailable'')),
                 Sleep 15,
                 Http (get_request (toy_env (scripted [Inr (json_response 503 unavailable),
                                    Inr (json_response 200 completed_job)]) no_loads)
                         (API_URL @ ''/batch/jobs/j1'')),
                 Print (status_line (toy_env (scripted [Inr (json_response 503 unavailable),
                                    Inr (json_response 200 completed_job)]) no_loads) (JStr ''completed''))]\<rparr>)"
proof -
  let ?E = "toy_env (scripted [Inr (json_response 503 unavailable),
                               Inr (json_response 200 completed_job)]) no_loads"
  let ?G = "toy_env (scripted [Inr (json_response 503 unavailable)]) no_loads"
  let ?w0 = "py_print ''Waiting for OCR batch job to complete...'' (toy_world ''%PDF'')"
  have a: "raise_for_status (json_response 503 unavailable) = Inl (HTTPError 503)"
    by (simp add: raise_for_status_def json_response_def)
  have b: "fst (create_batch_job ?G (JStr ''m1'') (toy_world ''%PDF'')) = Inl (HTTPError 503)"
    by (simp add: create_batch_job_def http_send_def and_then_def a scripted_def toy_env_def
        toy_world_def)
  have c: "fst (upload_file ?G ''Chatbot Proposal V1.1.pdf'' (toy_world ''%PDF'')) = Inl (HTTPError 503)"
    by (simp add: upload_file_def read_file_def http_send_def and_then_def a scripted_def toy_env_def
        toy_world_def)
  have pr: "poll_request ?E (JStr ''j1'') = get_request ?E (API_URL @ ''/batch/jobs/j1'')"
    by (simp add: poll_request_def toy_env_def)
  have i: "0 \<le> (15::int)" by simp
  have "poll_loop ?E (JStr ''j1'') 15 ?w0 =
     Some (Inr completed_job, ?w0\<lparr>trace := trace ?w0 @ poll_events ?E (JStr ''j1'') 15 [JStr ''unavailable'']
                                  @ [Http (poll_request ?E (JStr ''j1'')), Print (status_line ?E (JStr ''completed''))]\<rparr>)"
    by (rule poll_loop_run [OF i])
       (simp_all add: poll_answer_def poll_events_def scripted_def toy_env_def py_print_def
        toy_world_def json_response_def unavailable_def completed_job_def terminal_statuses_def)
  then have d: "wait_for_job ?E (JStr ''j1'') 15 (toy_world ''%PDF'')
     = Some (Inr completed_job,
             (toy_world ''%PDF'')\<lparr>trace :=
                [Print ''Waiting for OCR batch job to complete...'',
                 Http (get_request ?E (API_URL @ ''/batch/jobs/j1'')),
                 Print (status_line ?E (JStr ''unavailable'')),
                 Sleep 15,
                 Http (get_request ?E (API_URL @ ''/batch/jobs/j1'')),
                 Print (status_line ?E (JStr ''completed''))]\<rparr>)"
    unfolding wait_for_job_def pr poll_events_def by (simp add: py_print_def toy_world_def)
  show ?thesis using a b c d by blast
qed

section \<open>After the polling\<close>









end
